theory Spec2Isabelle
  imports Complex_Main "HOL-Library.Multiset"
begin

section \<open>Data model\<close>

text \<open>
  The persisted store has two tables, \<open>videos\<close> and \<open>video_variants\<close>, and the cache is a
  Redis key/value store with string keys and string values. The timestamp columns
  (\<open>created_at\<close>, \<open>updated_at\<close>), the generated primary key of a variant row and the
  expiry time of a cache entry are left out: no operation below reads them. Of the schema
  constraints of \<open>video_variants\<close> the model keeps \<open>unique(video_id, quality)\<close>.
\<close>

datatype error = Error string

datatype VideoStatus = Uploading | Processing | Ready | Failed | Deleted

record VideoQuality =
  name :: string
  q_bitrate :: int
  crf :: int
  width :: int
  height :: int

record video_row =
  status :: VideoStatus
  processing_job_id :: "string option"
  duration :: int
  thumbnail_url :: "string option"

record variant_row =
  video_id :: string
  quality :: string
  bitrate :: int
  resolution_width :: int
  resolution_height :: int
  file_path :: string
  file_size :: "nat option"
  hls_playlist_url :: "string option"

record state =
  videos :: "string \<rightharpoonup> video_row"
  video_variants :: "variant_row list"
  redis :: "string \<rightharpoonup> string"

section \<open>Rendering numbers\<close>

text \<open>Template literals print an integer in decimal, with a leading minus sign when negative.\<close>

definition digit_char :: "nat \<Rightarrow> char" where
  "digit_char d = ''0123456789'' ! (d mod 10)"

function decimal :: "int \<Rightarrow> string" where
  "decimal n =
     (if n < 10 then [digit_char (nat n)]
      else decimal (n div 10) @ [digit_char (nat (n mod 10))])"
  by pat_completeness auto
termination
  by (relation "measure nat") auto

declare decimal.simps [simp del]

definition string_of_int :: "int \<Rightarrow> string" where
  "string_of_int i = (if i < 0 then CHR ''-'' # decimal (- i) else decimal i)"

section \<open>Redis primitives\<close>

text \<open>
  \<open>redis.get\<close> returns the stored string or null; the callers test the result for
  truthiness, so an empty string counts as a miss (\<open>cache_hit\<close>).
\<close>

definition redis_setex :: "string \<Rightarrow> string \<Rightarrow> state \<Rightarrow> state" where
  "redis_setex k v s = s\<lparr>redis := (redis s)(k \<mapsto> v)\<rparr>"

definition redis_del :: "string \<Rightarrow> state \<Rightarrow> state" where
  "redis_del k s = s\<lparr>redis := (redis s)(k := None)\<rparr>"

definition cache_hit :: "string option \<Rightarrow> string option" where
  "cache_hit c = (case c of None \<Rightarrow> None | Some m \<Rightarrow> if m = [] then None else Some m)"

section \<open>StreamingService\<close>

text \<open>
  \<open>getVideoVariants\<close>: the rows of one video ordered by bitrate, descending. The order
  of rows with equal bitrate is left open by the database; the model keeps them in
  insertion order.
\<close>

definition getVideoVariants :: "state \<Rightarrow> string \<Rightarrow> variant_row list" where
  "getVideoVariants s videoId =
     sort_key (\<lambda>r. - bitrate r) (filter (\<lambda>r. video_id r = videoId) (video_variants s))"

definition stream_inf :: "variant_row \<Rightarrow> string" where
  "stream_inf variant =
     ''#EXT-X-STREAM-INF:BANDWIDTH='' @ string_of_int (bitrate variant * 1000)
       @ '',RESOLUTION='' @ string_of_int (resolution_width variant)
       @ ''x'' @ string_of_int (resolution_height variant) @ [CHR 0x0A]
     @ quality variant @ ''/playlist.m3u8'' @ [CHR 0x0A, CHR 0x0A]"

definition manifest_header :: string where
  "manifest_header = ''#EXTM3U'' @ [CHR 0x0A] @ ''#EXT-X-VERSION:3'' @ [CHR 0x0A, CHR 0x0A]"

definition master_manifest :: "variant_row list \<Rightarrow> string" where
  "master_manifest variants = manifest_header @ concat (map stream_inf variants)"

definition manifest_key :: "string \<Rightarrow> string" where
  "manifest_key videoId = ''manifest:'' @ videoId"

definition generateHLSManifest :: "string \<Rightarrow> state \<Rightarrow> (error + string) \<times> state" where
  "generateHLSManifest videoId s =
     (case cache_hit (redis s (manifest_key videoId)) of
        Some cachedManifest \<Rightarrow> (Inr cachedManifest, s)
      | None \<Rightarrow>
          (let variants = getVideoVariants s videoId in
           if variants = [] then (Inl (Error ''No video variants found''), s)
           else (let manifest = master_manifest variants
                 in (Inr manifest, redis_setex (manifest_key videoId) manifest s))))"

definition playlist_key :: "string \<Rightarrow> string \<Rightarrow> string" where
  "playlist_key videoId q = ''playlist:'' @ videoId @ '':'' @ q"

definition quality_playlist :: "string \<Rightarrow> string" where
  "quality_playlist q =
     ''#EXTM3U'' @ [CHR 0x0A] @
     ''#EXT-X-VERSION:3'' @ [CHR 0x0A] @
     ''#EXT-X-TARGETDURATION:10'' @ [CHR 0x0A] @
     ''#EXT-X-MEDIA-SEQUENCE:0'' @ [CHR 0x0A] @
     ''#EXTINF:10.0,'' @ [CHR 0x0A] @
     q @ ''_000.ts'' @ [CHR 0x0A] @
     ''#EXTINF:10.0,'' @ [CHR 0x0A] @
     q @ ''_001.ts'' @ [CHR 0x0A] @
     ''#EXT-X-ENDLIST''"

definition generateQualityPlaylist :: "string \<Rightarrow> string \<Rightarrow> state \<Rightarrow> (error + string) \<times> state" where
  "generateQualityPlaylist videoId q s =
     (case cache_hit (redis s (playlist_key videoId q)) of
        Some cachedPlaylist \<Rightarrow> (Inr cachedPlaylist, s)
      | None \<Rightarrow>
          (case find (\<lambda>r. video_id r = videoId \<and> quality r = q) (video_variants s) of
             None \<Rightarrow> (Inl (Error (''Quality '' @ q @ '' not found for video '' @ videoId)), s)
           | Some variant \<Rightarrow>
               (let playlist = quality_playlist q
                in (Inr playlist, redis_setex (playlist_key videoId q) playlist s))))"

text \<open>
  \<open>getOptimalQuality\<close>. The bandwidth arrives from the controller as an integer
  (\<open>parseInt\<close>); the product with 0.8 is taken exactly, as a rational. The loop walks the
  variants in the order \<open>getVideoVariants\<close> returns them and leaves at the first one
  above the target.
\<close>

fun optimal_scan :: "rat \<Rightarrow> string \<Rightarrow> variant_row list \<Rightarrow> string" where
  "optimal_scan targetBitrate optimalQuality [] = optimalQuality"
| "optimal_scan targetBitrate optimalQuality (variant # rest) =
     (if of_int (bitrate variant) \<le> targetBitrate
      then optimal_scan targetBitrate (quality variant) rest
      else optimalQuality)"

definition getOptimalQuality :: "string \<Rightarrow> int \<Rightarrow> state \<Rightarrow> string" where
  "getOptimalQuality videoId userBandwidth s =
     (let variants = getVideoVariants s videoId;
          targetBitrate = of_int userBandwidth * (8 / 10);
          optimalQuality =
            (case variants of [] \<Rightarrow> ''360p''
             | v0 # _ \<Rightarrow> if quality v0 = [] then ''360p'' else quality v0)
      in optimal_scan targetBitrate optimalQuality variants)"

text \<open>The controller answers an error of \<open>generateHLSManifest\<close> with HTTP status 404.\<close>

definition getHLSManifest :: "string \<Rightarrow> state \<Rightarrow> (nat \<times> string) \<times> state" where
  "getHLSManifest videoId s =
     (case generateHLSManifest videoId s of
        (Inr manifest, s') \<Rightarrow> ((200, manifest), s')
      | (Inl (Error msg), s') \<Rightarrow> ((404, msg), s'))"

section \<open>Configuration and external collaborators\<close>

text \<open>
  The configuration object is passed explicitly. An unset environment variable is
  \<open>None\<close>; a template literal prints it as \<open>undefined\<close>; an empty string is falsy.
\<close>

datatype storage_kind = LocalStorage | S3Storage | MinioStorage

record config =
  aws_accessKeyId :: "string option"
  aws_secretAccessKey :: "string option"
  aws_s3Bucket :: "string option"
  aws_region :: string
  aws_cloudFrontDomain :: "string option"
  storage_type :: storage_kind
  storage_localPath :: string
  storage_s3Bucket :: "string option"
  storage_s3Region :: string
  storage_s3Endpoint :: "string option"
  video_qualities :: "VideoQuality list"

definition truthy :: "string option \<Rightarrow> bool" where
  "truthy x = (case x of None \<Rightarrow> False | Some v \<Rightarrow> v \<noteq> [])"

definition str_opt :: "string option \<Rightarrow> string" where
  "str_opt x = (case x of None \<Rightarrow> ''undefined'' | Some v \<Rightarrow> v)"

definition default_qualities :: "VideoQuality list" where
  "default_qualities =
     [\<lparr>name = ''240p'', q_bitrate = 400, crf = 28, width = 426, height = 240\<rparr>,
      \<lparr>name = ''360p'', q_bitrate = 800, crf = 25, width = 640, height = 360\<rparr>,
      \<lparr>name = ''480p'', q_bitrate = 1200, crf = 23, width = 854, height = 480\<rparr>,
      \<lparr>name = ''720p'', q_bitrate = 2500, crf = 21, width = 1280, height = 720\<rparr>,
      \<lparr>name = ''1080p'', q_bitrate = 5000, crf = 20, width = 1920, height = 1080\<rparr>]"

text \<open>The job description returned by the cloud transcoding service.\<close>

datatype JobStatus = SUBMITTED | PROGRESSING | COMPLETE | CANCELED | ERROR

record OutputDetail =
  OutputFilePaths :: "string list option"
  ProgressInSeconds :: "int option"

record OutputGroupDetail =
  OutputDetails :: "OutputDetail list option"

record Job =
  Id :: "string option"
  Status :: "JobStatus option"
  ErrorMessage :: "string option"
  OutputGroupDetails :: "OutputGroupDetail list option"

record MediaConvertJob =
  jobId :: string
  job_status :: JobStatus
  progress :: int
  errorMessage :: "string option"
  outputGroupDetails :: "OutputGroupDetail list option"

datatype json = JStr string | JNum int

text \<open>
  What the file system, the encoder, object storage, the transcoding service and the JSON
  serialiser answer is an input of the model: each field is the outcome of one external
  call, \<open>None\<close> or \<open>Inr\<close> when the call succeeds and an error when it throws.
\<close>

record env =
  ffprobe :: "string \<Rightarrow> error + int"
  mkdir :: "string \<Rightarrow> error option"
  screenshots :: "string \<Rightarrow> string \<Rightarrow> error option"
  ffmpeg_run :: "string \<Rightarrow> VideoQuality \<Rightarrow> error option"
  fs_stat :: "string \<Rightarrow> error + nat"
  fs_writeFile :: "string \<Rightarrow> string \<Rightarrow> error option"
  uploadDirectoryToS3 :: "string \<Rightarrow> string \<Rightarrow> error option"
  s3_putObject :: "string \<Rightarrow> string \<Rightarrow> error option"
  fs_readFileSync :: "string \<Rightarrow> error option"
  mediaConvert_createJob :: "string \<Rightarrow> error + string option"
  mediaConvert_getJob :: "string \<Rightarrow> error + Job option"
  basename :: "string \<Rightarrow> string"
  JSON_stringify :: "(string \<times> json) list \<Rightarrow> string"

section \<open>CacheService\<close>

definition opt_field :: "string \<Rightarrow> string option \<Rightarrow> (string \<times> json) list" where
  "opt_field k v = (case v of None \<Rightarrow> [] | Some x \<Rightarrow> [(k, JStr x)])"

definition cacheProcessingStatus :: "env \<Rightarrow> string \<Rightarrow> (string \<times> json) list \<Rightarrow> state \<Rightarrow> state" where
  "cacheProcessingStatus e videoId st s =
     redis_setex (''video:processing:'' @ videoId) (JSON_stringify e st) s"

definition video_cache_keys :: "string \<Rightarrow> string list" where
  "video_cache_keys videoId =
     [''video:metadata:'' @ videoId,
      ''video:variants:'' @ videoId,
      ''video:hls:'' @ videoId,
      ''video:processing:'' @ videoId,
      ''video:analytics:'' @ videoId,
      ''video:views:'' @ videoId]"

definition invalidateVideoCache :: "string \<Rightarrow> state \<Rightarrow> state" where
  "invalidateVideoCache videoId s = fold redis_del (video_cache_keys videoId) s"

section \<open>Persistence primitives\<close>

text \<open>An update of a video that does not exist changes no row and raises nothing.\<close>

definition update_video :: "string \<Rightarrow> (video_row \<Rightarrow> video_row) \<Rightarrow> state \<Rightarrow> state" where
  "update_video videoId f s =
     (case videos s videoId of
        None \<Rightarrow> s
      | Some row \<Rightarrow> s\<lparr>videos := (videos s)(videoId \<mapsto> f row)\<rparr>)"

definition updateVideoStatus :: "string \<Rightarrow> VideoStatus \<Rightarrow> state \<Rightarrow> state" where
  "updateVideoStatus videoId st s = update_video videoId (\<lambda>row. row\<lparr>status := st\<rparr>) s"

definition updateVideoMetadata :: "string \<Rightarrow> int \<Rightarrow> state \<Rightarrow> state" where
  "updateVideoMetadata videoId d s = update_video videoId (\<lambda>row. row\<lparr>duration := d\<rparr>) s"

text \<open>An insert that would break \<open>unique(video_id, quality)\<close> raises and stores nothing.\<close>

definition insert_variant :: "variant_row \<Rightarrow> state \<Rightarrow> (error + variant_row) \<times> state" where
  "insert_variant row s =
     (if \<exists>r \<in> set (video_variants s). video_id r = video_id row \<and> quality r = quality row
      then (Inl (Error ''duplicate key value violates unique constraint''), s)
      else (Inr row, s\<lparr>video_variants := video_variants s @ [row]\<rparr>))"

text \<open>
  The update of one variant's playlist location; the row is found by its key
  \<open>(video_id, quality)\<close>, which identifies it as its primary key does.
\<close>

definition update_playlist_url :: "variant_row \<Rightarrow> string \<Rightarrow> state \<Rightarrow> state" where
  "update_playlist_url variant url s =
     s\<lparr>video_variants :=
         map (\<lambda>r. if video_id r = video_id variant \<and> quality r = quality variant
                  then r\<lparr>hls_playlist_url := Some url\<rparr> else r)
             (video_variants s)\<rparr>"

section \<open>AWSMediaConvertService\<close>

definition uploadToS3 :: "config \<Rightarrow> env \<Rightarrow> string \<Rightarrow> string \<Rightarrow> error + string" where
  "uploadToS3 cfg e filePath key =
     (case fs_readFileSync e filePath of
        Some err \<Rightarrow> Inl err
      | None \<Rightarrow>
          (case s3_putObject e (str_opt (aws_s3Bucket cfg)) key of
             Some err \<Rightarrow> Inl (Error ''Failed to upload file to S3'')
           | None \<Rightarrow> Inr (''s3://'' @ str_opt (aws_s3Bucket cfg) @ ''/'' @ key)))"

definition createTranscodingJob :: "env \<Rightarrow> string \<Rightarrow> error + string" where
  "createTranscodingJob e videoId =
     (case mediaConvert_createJob e videoId of
        Inl err \<Rightarrow> Inl (Error ''Failed to create transcoding job'')
      | Inr job_id \<Rightarrow> Inr (case job_id of None \<Rightarrow> [] | Some i \<Rightarrow> i))"

definition has_output_file :: "OutputDetail \<Rightarrow> bool" where
  "has_output_file out = (case OutputFilePaths out of None \<Rightarrow> False | Some ps \<Rightarrow> ps \<noteq> [])"

definition job_outputs :: "OutputGroupDetail list \<Rightarrow> OutputDetail list" where
  "job_outputs groups =
     concat (map (\<lambda>g. case OutputDetails g of None \<Rightarrow> [] | Some ds \<Rightarrow> ds) groups)"

definition calculateJobProgress :: "Job \<Rightarrow> int" where
  "calculateJobProgress job =
     (case OutputGroupDetails job of
        None \<Rightarrow> 0
      | Some groups \<Rightarrow>
          (let outs = job_outputs groups;
               totalProgress = sum_list (map (\<lambda>out. if has_output_file out then 100
                    else (case ProgressInSeconds out of None \<Rightarrow> 0 | Some p \<Rightarrow> p)) outs);
               outputCount = int (length outs)
           in if outputCount > 0
              then \<lfloor>(of_int totalProgress / of_int outputCount + 1 / 2 :: rat)\<rfloor>
              else 0))"

definition getJobStatus :: "env \<Rightarrow> string \<Rightarrow> error + MediaConvertJob" where
  "getJobStatus e job_id =
     (case mediaConvert_getJob e job_id of
        Inl err \<Rightarrow> Inl (Error ''Failed to get job status'')
      | Inr None \<Rightarrow> Inl (Error ''Failed to get job status'')
      | Inr (Some job) \<Rightarrow>
          Inr \<lparr>jobId = (case Id job of None \<Rightarrow> [] | Some i \<Rightarrow> i),
               job_status = (case Status job of None \<Rightarrow> SUBMITTED | Some st \<Rightarrow> st),
               progress = calculateJobProgress job,
               errorMessage = ErrorMessage job,
               outputGroupDetails = OutputGroupDetails job\<rparr>)"

definition getCloudFrontUrl :: "config \<Rightarrow> string \<Rightarrow> string" where
  "getCloudFrontUrl cfg key =
     (if truthy (aws_cloudFrontDomain cfg)
      then ''https://'' @ str_opt (aws_cloudFrontDomain cfg) @ ''/'' @ key
      else ''https://'' @ str_opt (aws_s3Bucket cfg) @ ''.s3.'' @ aws_region cfg
             @ ''.amazonaws.com/'' @ key)"

definition getS3PublicUrl :: "config \<Rightarrow> string \<Rightarrow> string \<Rightarrow> string" where
  "getS3PublicUrl cfg bucket key =
     (if truthy (storage_s3Endpoint cfg)
      then (let ep = str_opt (storage_s3Endpoint cfg);
                base = (if last ep = CHR ''/'' then butlast ep else ep)
            in base @ ''/'' @ bucket @ ''/'' @ key)
      else ''https://'' @ bucket @ ''.s3.'' @ storage_s3Region cfg @ ''.amazonaws.com/'' @ key)"

section \<open>VideoProcessingService\<close>

text \<open>\<open>path.join\<close> is modelled as concatenation with a slash (no normalisation).\<close>

definition path_join :: "string \<Rightarrow> string \<Rightarrow> string" where
  "path_join a b = a @ ''/'' @ b"

definition processed_dir :: "config \<Rightarrow> string \<Rightarrow> string" where
  "processed_dir cfg videoId = path_join (path_join (storage_localPath cfg) ''processed'') videoId"

definition set_thumbnail_url :: "string \<Rightarrow> state \<Rightarrow> state" where
  "set_thumbnail_url videoId s =
     update_video videoId
       (\<lambda>row. row\<lparr>thumbnail_url := Some (''/uploads/processed/'' @ videoId @ ''/thumbnail.jpg'')\<rparr>) s"

definition generateThumbnail ::
  "env \<Rightarrow> string \<Rightarrow> string \<Rightarrow> string \<Rightarrow> state \<Rightarrow> (error + string) \<times> state" where
  "generateThumbnail e inputPath outputDir videoId s =
     (case screenshots e inputPath outputDir of
        Some err \<Rightarrow> (Inl err, s)
      | None \<Rightarrow>
          (Inr (path_join outputDir ''thumbnail.jpg''), set_thumbnail_url videoId s))"

definition local_variant_row :: "string \<Rightarrow> VideoQuality \<Rightarrow> string \<Rightarrow> nat \<Rightarrow> variant_row" where
  "local_variant_row videoId q outputPath fileSize =
     \<lparr>video_id = videoId, quality = name q, bitrate = q_bitrate q,
      resolution_width = width q, resolution_height = height q,
      file_path = outputPath, file_size = Some fileSize,
      hls_playlist_url = Some (''/uploads/processed/'' @ videoId @ ''/'' @ name q @ ''.m3u8'')\<rparr>"

definition transcodeToQuality ::
  "env \<Rightarrow> string \<Rightarrow> string \<Rightarrow> string \<Rightarrow> VideoQuality \<Rightarrow> state \<Rightarrow> (error + variant_row) \<times> state" where
  "transcodeToQuality e inputPath outputDir videoId q s =
     (let outputPath = path_join outputDir (name q @ ''.m3u8'') in
      case ffmpeg_run e inputPath q of
        Some err \<Rightarrow> (Inl err, s)
      | None \<Rightarrow>
          (case fs_stat e outputPath of
             Inl err \<Rightarrow> (Inl err, s)
           | Inr fileSize \<Rightarrow>
               insert_variant (local_variant_row videoId q outputPath fileSize) s))"

fun transcode_loop ::
  "env \<Rightarrow> string \<Rightarrow> string \<Rightarrow> string \<Rightarrow> VideoQuality list \<Rightarrow> variant_row list \<Rightarrow> state
     \<Rightarrow> variant_row list \<times> state" where
  "transcode_loop e inputPath outputDir videoId [] variants s = (variants, s)"
| "transcode_loop e inputPath outputDir videoId (q # qs) variants s =
     (case transcodeToQuality e inputPath outputDir videoId q s of
        (Inr variant, s') \<Rightarrow> transcode_loop e inputPath outputDir videoId qs (variants @ [variant]) s'
      | (Inl err, s') \<Rightarrow> transcode_loop e inputPath outputDir videoId qs variants s')"

definition transcodeToMultipleQualities ::
  "config \<Rightarrow> env \<Rightarrow> string \<Rightarrow> string \<Rightarrow> string \<Rightarrow> state \<Rightarrow> variant_row list \<times> state" where
  "transcodeToMultipleQualities cfg e inputPath outputDir videoId s =
     transcode_loop e inputPath outputDir videoId (video_qualities cfg) [] s"

definition local_master_playlist :: "variant_row list \<Rightarrow> string" where
  "local_master_playlist variants =
     manifest_header @
     concat (map (\<lambda>variant.
       ''#EXT-X-STREAM-INF:BANDWIDTH='' @ string_of_int (bitrate variant * 1000)
         @ '',RESOLUTION='' @ string_of_int (resolution_width variant)
         @ ''x'' @ string_of_int (resolution_height variant) @ [CHR 0x0A]
       @ quality variant @ ''.m3u8'' @ [CHR 0x0A, CHR 0x0A]) variants)"

definition generateHLSPlaylists ::
  "env \<Rightarrow> variant_row list \<Rightarrow> string \<Rightarrow> string \<Rightarrow> state \<Rightarrow> (error + unit) \<times> state" where
  "generateHLSPlaylists e variants outputDir videoId s =
     (case fs_writeFile e (path_join outputDir ''master.m3u8'') (local_master_playlist variants) of
        Some err \<Rightarrow> (Inl err, s)
      | None \<Rightarrow> (Inr (), s))"

definition publish_variant_urls :: "config \<Rightarrow> string \<Rightarrow> variant_row list \<Rightarrow> state \<Rightarrow> state" where
  "publish_variant_urls cfg videoId variants s =
     fold (\<lambda>variant.
            update_playlist_url variant
              (getS3PublicUrl cfg (str_opt (storage_s3Bucket cfg))
                 (''videos/'' @ videoId @ ''/'' @ quality variant @ ''.m3u8'')))
          variants s"

definition processWithFFmpeg ::
  "config \<Rightarrow> env \<Rightarrow> string \<Rightarrow> string \<Rightarrow> state \<Rightarrow> (error + unit) \<times> state" where
  "processWithFFmpeg cfg e videoId inputPath s =
     (let outputDir = processed_dir cfg videoId in
      case mkdir e outputDir of
        Some err \<Rightarrow> (Inl err, s)
      | None \<Rightarrow>
          (case generateThumbnail e inputPath outputDir videoId s of
             (Inl err, s1) \<Rightarrow> (Inl err, s1)
           | (Inr thumb, s1) \<Rightarrow>
               (case transcodeToMultipleQualities cfg e inputPath outputDir videoId s1 of
                  (variants, s2) \<Rightarrow>
                    (case generateHLSPlaylists e variants outputDir videoId s2 of
                       (Inl err, s3) \<Rightarrow> (Inl err, s3)
                     | (Inr u, s3) \<Rightarrow>
                         (if storage_type cfg = S3Storage
                          then (case uploadDirectoryToS3 e (''videos/'' @ videoId) outputDir of
                                  Some err \<Rightarrow> (Inl err, s3)
                                | None \<Rightarrow> (Inr (), publish_variant_urls cfg videoId variants s3))
                          else (Inr (), s3))))))"

definition processWithAWSMediaConvert ::
  "config \<Rightarrow> env \<Rightarrow> string \<Rightarrow> string \<Rightarrow> state \<Rightarrow> (error + unit) \<times> state" where
  "processWithAWSMediaConvert cfg e videoId inputPath s =
     (let inputKey = ''videos/'' @ videoId @ ''/source/'' @ basename e inputPath in
      case uploadToS3 cfg e inputPath inputKey of
        Inl err \<Rightarrow> (Inl err, s)
      | Inr inputS3Uri \<Rightarrow>
          (case createTranscodingJob e videoId of
             Inl err \<Rightarrow> (Inl err, s)
           | Inr job_id \<Rightarrow>
               (let s1 = update_video videoId (\<lambda>row. row\<lparr>processing_job_id := Some job_id\<rparr>) s;
                    outputDir = processed_dir cfg videoId
                in case mkdir e outputDir of
                     Some err \<Rightarrow> (Inl err, s1)
                   | None \<Rightarrow>
                       (case generateThumbnail e inputPath outputDir videoId s1 of
                          (Inl err, s2) \<Rightarrow> (Inl err, s2)
                        | (Inr thumb, s2) \<Rightarrow>
                            (Inr (),
                             cacheProcessingStatus e videoId
                               [(''status'', JStr ''processing''), (''progress'', JNum 30),
                                (''jobId'', JStr job_id),
                                (''message'', JStr ''Transcoding job created, processing in progress...'')]
                               s2)))))"

text \<open>The test \<open>config.aws.accessKeyId && config.aws.secretAccessKey\<close> that selects the strategy.\<close>

definition cloud_configured :: "config \<Rightarrow> bool" where
  "cloud_configured cfg = (truthy (aws_accessKeyId cfg) \<and> truthy (aws_secretAccessKey cfg))"

definition processVideo_body ::
  "config \<Rightarrow> env \<Rightarrow> string \<Rightarrow> string \<Rightarrow> state \<Rightarrow> (error + unit) \<times> state" where
  "processVideo_body cfg e videoId inputPath s =
     (let s1 = updateVideoStatus videoId Processing s;
          s2 = cacheProcessingStatus e videoId
                 [(''status'', JStr ''processing''), (''progress'', JNum 10)] s1
      in case ffprobe e inputPath of
           Inl err \<Rightarrow> (Inl err, s2)
         | Inr d \<Rightarrow>
             (let s3 = updateVideoMetadata videoId d s2 in
              case (if cloud_configured cfg
                    then processWithAWSMediaConvert cfg e videoId inputPath s3
                    else processWithFFmpeg cfg e videoId inputPath s3) of
                (Inl err, s4) \<Rightarrow> (Inl err, s4)
              | (Inr u, s4) \<Rightarrow>
                  (let s5 = updateVideoStatus videoId Ready s4;
                       s6 = cacheProcessingStatus e videoId
                              [(''status'', JStr ''ready''), (''progress'', JNum 100)] s5
                   in (Inr (), invalidateVideoCache videoId s6))))"

text \<open>The \<open>catch\<close> block of \<open>processVideo\<close>: record the failure, then rethrow.\<close>

definition processVideo ::
  "config \<Rightarrow> env \<Rightarrow> string \<Rightarrow> string \<Rightarrow> state \<Rightarrow> (error + unit) \<times> state" where
  "processVideo cfg e videoId inputPath s =
     (case processVideo_body cfg e videoId inputPath s of
        (Inr u, s') \<Rightarrow> (Inr (), s')
      | (Inl (Error msg), s') \<Rightarrow>
          (Inl (Error msg),
           cacheProcessingStatus e videoId
             [(''status'', JStr ''failed''), (''progress'', JNum 0), (''error'', JStr msg)]
             (updateVideoStatus videoId Failed s')))"

definition is_digit :: "char \<Rightarrow> bool" where
  "is_digit c = (c \<in> set ''0123456789'')"

text \<open>
  \<open>extractQualityFromPath\<close>: the pattern \<open>(\d+p)\.m3u8$\<close> matches when the path ends in
  \<open>p.m3u8\<close> preceded by at least one digit; the leftmost match takes the whole run of
  digits. The quality is the first configured one of that name.
\<close>

definition extractQualityFromPath :: "config \<Rightarrow> string \<Rightarrow> VideoQuality option" where
  "extractQualityFromPath cfg outputPath =
     (let r = rev outputPath in
      if take 6 r = rev ''p.m3u8''
      then (let digits = rev (takeWhile is_digit (drop 6 r)) in
            if digits = [] then None
            else find (\<lambda>q. name q = digits @ ''p'') (video_qualities cfg))
      else None)"

definition aws_variant_row :: "config \<Rightarrow> string \<Rightarrow> VideoQuality \<Rightarrow> string \<Rightarrow> variant_row" where
  "aws_variant_row cfg videoId q outputPath =
     \<lparr>video_id = videoId, quality = name q, bitrate = q_bitrate q,
      resolution_width = width q, resolution_height = height q,
      file_path = outputPath, file_size = None,
      hls_playlist_url = Some (getCloudFrontUrl cfg
        (''videos/'' @ videoId @ ''/outputs/'' @ name q @ ''.m3u8''))\<rparr>"

fun insert_outputs ::
  "config \<Rightarrow> string \<Rightarrow> OutputDetail list \<Rightarrow> state \<Rightarrow> (error + unit) \<times> state" where
  "insert_outputs cfg videoId [] s = (Inr (), s)"
| "insert_outputs cfg videoId (out # outs) s =
     (case OutputFilePaths out of
        Some (outputPath # other_paths) \<Rightarrow>
          (case extractQualityFromPath cfg outputPath of
             Some q \<Rightarrow>
               (case insert_variant (aws_variant_row cfg videoId q outputPath) s of
                  (Inl err, s') \<Rightarrow> (Inl err, s')
                | (Inr row, s') \<Rightarrow> insert_outputs cfg videoId outs s')
           | None \<Rightarrow> insert_outputs cfg videoId outs s)
      | _ \<Rightarrow> insert_outputs cfg videoId outs s)"

fun insert_groups ::
  "config \<Rightarrow> string \<Rightarrow> OutputGroupDetail list \<Rightarrow> state \<Rightarrow> (error + unit) \<times> state" where
  "insert_groups cfg videoId [] s = (Inr (), s)"
| "insert_groups cfg videoId (g # gs) s =
     (case OutputDetails g of
        None \<Rightarrow> insert_groups cfg videoId gs s
      | Some outs \<Rightarrow>
          (case insert_outputs cfg videoId outs s of
             (Inl err, s') \<Rightarrow> (Inl err, s')
           | (Inr u, s') \<Rightarrow> insert_groups cfg videoId gs s'))"

definition updateVideoVariantsFromAWS ::
  "config \<Rightarrow> string \<Rightarrow> MediaConvertJob \<Rightarrow> state \<Rightarrow> (error + unit) \<times> state" where
  "updateVideoVariantsFromAWS cfg videoId jobStatus s =
     (case outputGroupDetails jobStatus of
        None \<Rightarrow> (Inr (), s)
      | Some groups \<Rightarrow> insert_groups cfg videoId groups s)"

definition JobStatus_string :: "JobStatus \<Rightarrow> string" where
  "JobStatus_string st =
     (case st of SUBMITTED \<Rightarrow> ''SUBMITTED'' | PROGRESSING \<Rightarrow> ''PROGRESSING''
      | COMPLETE \<Rightarrow> ''COMPLETE'' | CANCELED \<Rightarrow> ''CANCELED'' | ERROR \<Rightarrow> ''ERROR'')"

definition checkAWSJobStatus ::
  "config \<Rightarrow> env \<Rightarrow> string \<Rightarrow> state \<Rightarrow> (error + MediaConvertJob) \<times> state" where
  "checkAWSJobStatus cfg e videoId s =
     (case videos s videoId of
        None \<Rightarrow> (Inl (Error ''No processing job found for this video''), s)
      | Some video \<Rightarrow>
          (if \<not> truthy (processing_job_id video)
           then (Inl (Error ''No processing job found for this video''), s)
           else
             (case getJobStatus e (str_opt (processing_job_id video)) of
                Inl err \<Rightarrow> (Inl err, s)
              | Inr jobStatus \<Rightarrow>
                  (let s1 = cacheProcessingStatus e videoId
                              ([(''status'', JStr (JobStatus_string (job_status jobStatus))),
                                (''progress'', JNum (progress jobStatus)),
                                (''jobId'', JStr (str_opt (processing_job_id video)))]
                               @ opt_field ''error'' (errorMessage jobStatus)) s
                   in if job_status jobStatus = COMPLETE
                      then (case updateVideoVariantsFromAWS cfg videoId jobStatus s1 of
                              (Inl err, s2) \<Rightarrow> (Inl err, s2)
                            | (Inr u, s2) \<Rightarrow>
                                (Inr jobStatus,
                                 invalidateVideoCache videoId (updateVideoStatus videoId Ready s2)))
                      else if job_status jobStatus = ERROR
                      then (Inr jobStatus, updateVideoStatus videoId Failed s1)
                      else (Inr jobStatus, s1)))))"

section \<open>Vocabulary of the properties\<close>

text \<open>
  A rung's encode succeeds when the encoder run ends without error and the written
  playlist can be measured; \<open>encoded_row\<close> is the row \<open>transcodeToQuality\<close> then inserts.
\<close>

definition encode_succeeds :: "env \<Rightarrow> string \<Rightarrow> string \<Rightarrow> VideoQuality \<Rightarrow> bool" where
  "encode_succeeds e inputPath outputDir q =
     (ffmpeg_run e inputPath q = None \<and>
      (case fs_stat e (path_join outputDir (name q @ ''.m3u8'')) of
         Inl err \<Rightarrow> False | Inr n \<Rightarrow> True))"

definition encoded_row :: "env \<Rightarrow> string \<Rightarrow> string \<Rightarrow> VideoQuality \<Rightarrow> variant_row" where
  "encoded_row e outputDir videoId q =
     local_variant_row videoId q (path_join outputDir (name q @ ''.m3u8''))
       (case fs_stat e (path_join outputDir (name q @ ''.m3u8'')) of Inl err \<Rightarrow> 0 | Inr n \<Rightarrow> n)"

text \<open>The row one output of a finished job contributes, if its path names a configured rung.\<close>

definition output_row :: "config \<Rightarrow> string \<Rightarrow> OutputDetail \<Rightarrow> variant_row option" where
  "output_row cfg videoId out =
     (case OutputFilePaths out of
        Some (outputPath # other_paths) \<Rightarrow>
          map_option (\<lambda>q. aws_variant_row cfg videoId q outputPath)
            (extractQualityFromPath cfg outputPath)
      | _ \<Rightarrow> None)"

text \<open>What a rendition row says about its rung: label, bitrate and resolution.\<close>

definition rendition :: "variant_row \<Rightarrow> string \<times> int \<times> int \<times> int" where
  "rendition r = (quality r, bitrate r, resolution_width r, resolution_height r)"

definition rung :: "VideoQuality \<Rightarrow> string \<times> int \<times> int \<times> int" where
  "rung q = (name q, q_bitrate q, width q, height q)"

definition variants_of :: "state \<Rightarrow> string \<Rightarrow> variant_row list" where
  "variants_of s videoId = filter (\<lambda>r. video_id r = videoId) (video_variants s)"

definition status_of :: "state \<Rightarrow> string \<Rightarrow> VideoStatus option" where
  "status_of s videoId = map_option status (videos s videoId)"

text \<open>The bitrate of the rendition that carries the label \<open>getOptimalQuality\<close> returns.\<close>

definition selected_bitrate :: "string \<Rightarrow> int \<Rightarrow> state \<Rightarrow> int option" where
  "selected_bitrate videoId userBandwidth s =
     map_option bitrate
       (find (\<lambda>r. quality r = getOptimalQuality videoId userBandwidth s) (variants_of s videoId))"

section \<open>Concrete configurations, collaborators and states\<close>

definition local_config :: config where
  "local_config =
     \<lparr>aws_accessKeyId = None, aws_secretAccessKey = None, aws_s3Bucket = None,
      aws_region = ''us-east-1'', aws_cloudFrontDomain = None,
      storage_type = LocalStorage, storage_localPath = ''./uploads'',
      storage_s3Bucket = None, storage_s3Region = ''us-east-1'', storage_s3Endpoint = None,
      video_qualities = default_qualities\<rparr>"

definition cloud_config :: config where
  "cloud_config =
     local_config\<lparr>aws_accessKeyId := Some ''AKIAEXAMPLE'', aws_secretAccessKey := Some ''secret'',
                  aws_s3Bucket := Some ''bucket''\<rparr>"

fun json_text :: "json \<Rightarrow> string" where
  "json_text (JStr x) = [CHR 0x22] @ x @ [CHR 0x22]"
| "json_text (JNum n) = string_of_int n"

fun json_members :: "(string \<times> json) list \<Rightarrow> string" where
  "json_members [] = []"
| "json_members [(k, v)] = [CHR 0x22] @ k @ [CHR 0x22] @ '':'' @ json_text v"
| "json_members ((k, v) # kvs) =
     [CHR 0x22] @ k @ [CHR 0x22] @ '':'' @ json_text v @ '','' @ json_members kvs"

definition stringify :: "(string \<times> json) list \<Rightarrow> string" where
  "stringify kvs = ''{'' @ json_members kvs @ ''}''"

definition complete_job :: Job where
  "complete_job =
     \<lparr>Id = Some ''job-1'', Status = Some COMPLETE, ErrorMessage = None,
      OutputGroupDetails = Some
        [\<lparr>OutputDetails = Some
            [\<lparr>OutputFilePaths = Some [''s3://bucket/videos/v1/outputs/in_240p.m3u8''],
              ProgressInSeconds = None\<rparr>,
             \<lparr>OutputFilePaths = Some [''s3://bucket/videos/v1/outputs/in_1080p.m3u8''],
              ProgressInSeconds = None\<rparr>]\<rparr>]\<rparr>"

definition ok_env :: env where
  "ok_env =
     \<lparr>ffprobe = (\<lambda>p. Inr 60),
      mkdir = (\<lambda>p. None),
      screenshots = (\<lambda>p d. None),
      ffmpeg_run = (\<lambda>p q. None),
      fs_stat = (\<lambda>p. Inr 1024),
      fs_writeFile = (\<lambda>p c. None),
      uploadDirectoryToS3 = (\<lambda>p d. None),
      s3_putObject = (\<lambda>b k. None),
      fs_readFileSync = (\<lambda>p. None),
      mediaConvert_createJob = (\<lambda>v. Inr (Some ''job-1'')),
      mediaConvert_getJob = (\<lambda>j. Inr (Some complete_job)),
      basename = (\<lambda>p. p),
      JSON_stringify = stringify\<rparr>"

definition failing_encoder_env :: env where
  "failing_encoder_env = ok_env\<lparr>ffmpeg_run := (\<lambda>p q. Some (Error ''ffmpeg exited with code 1''))\<rparr>"

definition only_480p_fails_env :: env where
  "only_480p_fails_env =
     ok_env\<lparr>ffmpeg_run := (\<lambda>p q. if name q = ''480p'' then Some (Error ''ffmpeg exited with code 1'') else None)\<rparr>"

definition uploaded_video :: video_row where
  "uploaded_video = \<lparr>status = Uploading, processing_job_id = None, duration = 0, thumbnail_url = None\<rparr>"

definition fresh_state :: state where
  "fresh_state = \<lparr>videos = [''v1'' \<mapsto> uploaded_video], video_variants = [], redis = Map.empty\<rparr>"

definition row_240p :: variant_row where
  "row_240p = encoded_row ok_env (processed_dir local_config ''v1'') ''v1'' (default_qualities ! 0)"

definition row_1080p :: variant_row where
  "row_1080p = encoded_row ok_env (processed_dir local_config ''v1'') ''v1'' (default_qualities ! 4)"

definition one_rendition_cached_state :: state where
  "one_rendition_cached_state =
     \<lparr>videos = [''v1'' \<mapsto> uploaded_video\<lparr>status := Ready\<rparr>],
      video_variants = [row_240p],
      redis = [manifest_key ''v1'' \<mapsto> master_manifest [row_240p]]\<rparr>"

definition submitted_state :: state where
  "submitted_state =
     \<lparr>videos = [''v1'' \<mapsto> uploaded_video\<lparr>status := Processing, processing_job_id := Some ''job-1''\<rparr>],
      video_variants = [], redis = Map.empty\<rparr>"

definition two_rendition_state :: state where
  "two_rendition_state =
     \<lparr>videos = [''v1'' \<mapsto> uploaded_video\<lparr>status := Ready\<rparr>],
      video_variants = [row_240p, row_1080p], redis = Map.empty\<rparr>"

text \<open>A run of the local pipeline on the registered video, then a manifest and a playlist request.\<close>

definition processed_state :: state where
  "processed_state = snd (processVideo local_config ok_env ''v1'' ''in.mp4'' fresh_state)"

definition served_state :: state where
  "served_state =
     snd (generateQualityPlaylist ''v1'' ''240p'' (snd (generateHLSManifest ''v1'' processed_state)))"

section \<open>Reachable states\<close>

text \<open>
  The keys under which the streaming service caches a manifest or a playlist. Every other
  cache write of the repository uses a key that starts with \<open>video:\<close>, \<open>streaming:\<close>,
  \<open>user:\<close>, \<open>network:\<close> or \<open>analytics:\<close>.
\<close>

definition streaming_key :: "string \<Rightarrow> bool" where
  "streaming_key k = (take 9 k = ''manifest:'' \<or> take 9 k = ''playlist:'')"

text \<open>
  The states the system can be in, operations running one at a time: the empty store,
  any change of the \<open>videos\<close> table (registration, metadata edits, soft deletion), a
  pipeline run, a poll of the cloud job, a request for a manifest or a playlist, a cache
  write under a key of another namespace, and the deletion or expiry of a cache entry.
  No operation of the repository deletes a variant row.
\<close>

inductive reachable :: "config \<Rightarrow> state \<Rightarrow> bool" for cfg :: config where
  start: "reachable cfg \<lparr>videos = Map.empty, video_variants = [], redis = Map.empty\<rparr>"
| videos_changed: "reachable cfg s \<Longrightarrow> reachable cfg (s\<lparr>videos := vs\<rparr>)"
| pipeline_run: "reachable cfg s \<Longrightarrow> reachable cfg (snd (processVideo cfg e videoId inputPath s))"
| poll: "reachable cfg s \<Longrightarrow> reachable cfg (snd (checkAWSJobStatus cfg e videoId s))"
| manifest_request: "reachable cfg s \<Longrightarrow> reachable cfg (snd (generateHLSManifest videoId s))"
| playlist_request: "reachable cfg s \<Longrightarrow> reachable cfg (snd (generateQualityPlaylist videoId q s))"
| other_cache_write: "reachable cfg s \<Longrightarrow> \<not> streaming_key k \<Longrightarrow> reachable cfg (redis_setex k x s)"
| cache_delete: "reachable cfg s \<Longrightarrow> reachable cfg (redis_del k s)"

text \<open>
  From \<open>s\<close> to \<open>s'\<close> every rendition is kept (a row may change its playlist location only),
  every row of \<open>s'\<close> is a row of \<open>s\<close> or carries the name of a configured rung, and the
  streaming keys of the cache are untouched.
\<close>

definition rows_kept :: "state \<Rightarrow> state \<Rightarrow> bool" where
  "rows_kept s s' =
     (\<forall>r \<in> set (video_variants s). \<exists>r' \<in> set (video_variants s').
         video_id r' = video_id r \<and> rendition r' = rendition r)"

definition rows_from :: "config \<Rightarrow> state \<Rightarrow> state \<Rightarrow> bool" where
  "rows_from cfg s s' =
     (\<forall>r' \<in> set (video_variants s').
         quality r' \<in> name ` set (video_qualities cfg)
         \<or> (\<exists>r \<in> set (video_variants s). video_id r = video_id r' \<and> rendition r = rendition r'))"

definition extends :: "config \<Rightarrow> state \<Rightarrow> state \<Rightarrow> bool" where
  "extends cfg s s' =
     (rows_kept s s' \<and> rows_from cfg s s' \<and> (\<forall>k. streaming_key k \<longrightarrow> redis s' k = redis s k))"

text \<open>A cached manifest lists renditions of the video, highest bitrate first.\<close>

definition lists_renditions :: "state \<Rightarrow> string \<Rightarrow> string \<Rightarrow> bool" where
  "lists_renditions s videoId m =
     (\<exists>vs. m = master_manifest vs \<and> vs \<noteq> []
        \<and> sorted_wrt (\<lambda>a b. bitrate b \<le> bitrate a) vs
        \<and> (\<forall>x \<in> set vs. \<exists>r \<in> set (variants_of s videoId). rendition r = rendition x))"

definition manifest_cache_ok :: "state \<Rightarrow> bool" where
  "manifest_cache_ok s =
     (\<forall>videoId m. cache_hit (redis s (manifest_key videoId)) = Some m \<longrightarrow> lists_renditions s videoId m)"

text \<open>Every row carries the name of a configured rung.\<close>

definition rows_named :: "config \<Rightarrow> state \<Rightarrow> bool" where
  "rows_named cfg s = (\<forall>r \<in> set (video_variants s). quality r \<in> name ` set (video_qualities cfg))"

text \<open>A cached playlist is the fixed text of a configured rung, stored under its key.\<close>

definition playlist_cache_ok :: "config \<Rightarrow> state \<Rightarrow> bool" where
  "playlist_cache_ok cfg s =
     (\<forall>k m. cache_hit (redis s k) = Some m \<longrightarrow> take 9 k = ''playlist:'' \<longrightarrow>
        (\<exists>videoId q. k = playlist_key videoId q \<and> q \<in> name ` set (video_qualities cfg)
           \<and> m = quality_playlist q))"

definition cache_inv :: "config \<Rightarrow> state \<Rightarrow> bool" where
  "cache_inv cfg s = (manifest_cache_ok s \<and> rows_named cfg s \<and> playlist_cache_ok cfg s)"

section \<open>Frame lemmas: which table each primitive touches\<close>

lemma redis_setex_sel [simp]:
  "videos (redis_setex k x s) = videos s"
  "video_variants (redis_setex k x s) = video_variants s"
  "redis (redis_setex k x s) = (redis s)(k \<mapsto> x)"
  by (simp_all add: redis_setex_def)

lemma redis_del_sel [simp]:
  "videos (redis_del k s) = videos s"
  "video_variants (redis_del k s) = video_variants s"
  "redis (redis_del k s) = (redis s)(k := None)"
  by (simp_all add: redis_del_def)

lemma cacheProcessingStatus_sel [simp]:
  "videos (cacheProcessingStatus e v st s) = videos s"
  "video_variants (cacheProcessingStatus e v st s) = video_variants s"
  by (simp_all add: cacheProcessingStatus_def)

lemma invalidateVideoCache_sel [simp]:
  "videos (invalidateVideoCache v s) = videos s"
  "video_variants (invalidateVideoCache v s) = video_variants s"
  by (simp_all add: invalidateVideoCache_def video_cache_keys_def)

lemma update_video_sel [simp]:
  "video_variants (update_video v f s) = video_variants s"
  "redis (update_video v f s) = redis s"
  "videos (update_video v f s) w = (if w = v then map_option f (videos s v) else videos s w)"
  by (auto simp: update_video_def split: option.splits)

lemma updateVideoStatus_sel [simp]:
  "video_variants (updateVideoStatus v st s) = video_variants s"
  "redis (updateVideoStatus v st s) = redis s"
  "videos (updateVideoStatus v st s) w =
     (if w = v then map_option (\<lambda>row. row\<lparr>status := st\<rparr>) (videos s v) else videos s w)"
  by (simp_all add: updateVideoStatus_def)

lemma updateVideoMetadata_sel [simp]:
  "video_variants (updateVideoMetadata v d s) = video_variants s"
  "redis (updateVideoMetadata v d s) = redis s"
  "videos (updateVideoMetadata v d s) w =
     (if w = v then map_option (\<lambda>row. row\<lparr>duration := d\<rparr>) (videos s v) else videos s w)"
  by (simp_all add: updateVideoMetadata_def)

lemma update_playlist_url_sel [simp]:
  "videos (update_playlist_url r u s) = videos s"
  "redis (update_playlist_url r u s) = redis s"
  "map video_id (video_variants (update_playlist_url r u s)) = map video_id (video_variants s)"
  "map rendition (video_variants (update_playlist_url r u s)) = map rendition (video_variants s)"
  by (simp_all add: update_playlist_url_def rendition_def)

lemma filter_map_preserved:
  assumes "\<And>x. video_id (f x) = video_id x" "\<And>x. rendition (f x) = rendition x"
  shows "map rendition (filter (\<lambda>r. video_id r = v) (map f xs))
           = map rendition (filter (\<lambda>r. video_id r = v) xs)"
  by (induction xs) (simp_all add: assms)

lemma variants_of_url:
  "map rendition (variants_of (update_playlist_url r u s) v) = map rendition (variants_of s v)"
  unfolding variants_of_def update_playlist_url_def
  by (simp, rule filter_map_preserved) (simp_all add: rendition_def)

lemma publish_variant_urls_sel [simp]:
  "videos (publish_variant_urls cfg v rs s) = videos s"
  "redis (publish_variant_urls cfg v rs s) = redis s"
  "map rendition (variants_of (publish_variant_urls cfg v rs s) w) = map rendition (variants_of s w)"
  unfolding publish_variant_urls_def
  by (induction rs arbitrary: s) (simp_all add: variants_of_url)

lemma insert_variant_cases:
  "insert_variant row s = (r, s') \<Longrightarrow>
     (s' = s \<and> (\<exists>err. r = Inl err)
        \<and> (\<exists>x \<in> set (video_variants s). video_id x = video_id row \<and> quality x = quality row))
   \<or> (s' = s\<lparr>video_variants := video_variants s @ [row]\<rparr> \<and> r = Inr row)"
  by (auto simp: insert_variant_def split: if_splits)

lemma insert_variant_dup:
  "\<exists>x \<in> set (video_variants t). video_id x = video_id row \<and> quality x = quality row \<Longrightarrow>
   \<exists>err. insert_variant row t = (Inl err, t)"
  by (auto simp: insert_variant_def)

lemma insert_outputs_step:
  "insert_outputs cfg v (out # outs) s =
     (case output_row cfg v out of
        None \<Rightarrow> insert_outputs cfg v outs s
      | Some row \<Rightarrow>
          (case insert_variant row s of
             (Inl err, s') \<Rightarrow> (Inl err, s')
           | (Inr r, s') \<Rightarrow> insert_outputs cfg v outs s'))"
  by (simp add: output_row_def split: option.splits list.splits)

lemma insert_outputs_grows:
  "insert_outputs cfg v outs s = (Inr u, s') \<Longrightarrow>
   videos s' = videos s \<and> redis s' = redis s \<and> set (video_variants s) \<subseteq> set (video_variants s')"
proof (induction outs arbitrary: s)
  case Nil
  then show ?case by simp
next
  case (Cons out outs)
  show ?case
  proof (cases "output_row cfg v out")
    case None
    with Cons show ?thesis by (simp add: insert_outputs_step del: insert_outputs.simps)
  next
    case (Some row)
    obtain r s1 where ins: "insert_variant row s = (r, s1)" by fastforce
    from Cons.prems Some ins obtain x where r: "r = Inr x"
      by (cases r) (simp_all add: insert_outputs_step del: insert_outputs.simps)
    from insert_variant_cases[OF ins] r
    have s1: "s1 = s\<lparr>video_variants := video_variants s @ [row]\<rparr>" by auto
    have "insert_outputs cfg v outs s1 = (Inr u, s')"
      using Cons.prems Some ins r by (simp add: insert_outputs_step del: insert_outputs.simps)
    from Cons.IH[OF this] s1 show ?thesis by auto
  qed
qed

lemma insert_outputs_again:
  assumes "insert_outputs cfg v outs s = (Inr u, s')"
      and "set (video_variants s') \<subseteq> set (video_variants t)"
  shows "\<exists>r. insert_outputs cfg v outs t = (r, t)"
  using assms
proof (induction outs arbitrary: s)
  case Nil
  then show ?case by simp
next
  case (Cons out outs)
  show ?case
  proof (cases "output_row cfg v out")
    case None
    with Cons show ?thesis by (simp add: insert_outputs_step del: insert_outputs.simps)
  next
    case (Some row)
    obtain r s1 where ins: "insert_variant row s = (r, s1)" by fastforce
    from Cons.prems Some ins obtain x where r: "r = Inr x"
      by (cases r) (simp_all add: insert_outputs_step del: insert_outputs.simps)
    from insert_variant_cases[OF ins] r
    have s1: "s1 = s\<lparr>video_variants := video_variants s @ [row]\<rparr>" by auto
    have rest: "insert_outputs cfg v outs s1 = (Inr u, s')"
      using Cons.prems Some ins r by (simp add: insert_outputs_step del: insert_outputs.simps)
    from insert_outputs_grows[OF rest] s1 have "row \<in> set (video_variants s')" by auto
    then have "row \<in> set (video_variants t)" using Cons.prems(2) by auto
    then have "\<exists>x \<in> set (video_variants t). video_id x = video_id row \<and> quality x = quality row"
      by blast
    from insert_variant_dup[OF this] obtain err where "insert_variant row t = (Inl err, t)" ..
    then show ?thesis using Some by (simp add: insert_outputs_step del: insert_outputs.simps)
  qed
qed

lemma insert_groups_grows:
  "insert_groups cfg v gs s = (Inr u, s') \<Longrightarrow>
   videos s' = videos s \<and> redis s' = redis s \<and> set (video_variants s) \<subseteq> set (video_variants s')"
proof (induction gs arbitrary: s)
  case Nil
  then show ?case by simp
next
  case (Cons g gs)
  show ?case
  proof (cases "OutputDetails g")
    case None
    with Cons show ?thesis by simp
  next
    case (Some outs)
    obtain r s1 where o: "insert_outputs cfg v outs s = (r, s1)" by fastforce
    from Cons.prems Some o obtain x where r: "r = Inr x" by (cases r) simp_all
    have rest: "insert_groups cfg v gs s1 = (Inr u, s')"
      using Cons.prems Some o r by simp
    from Cons.IH[OF rest] insert_outputs_grows[OF o[unfolded r]] show ?thesis by auto
  qed
qed

lemma insert_groups_again:
  assumes "insert_groups cfg v gs s = (Inr u, s')"
      and "set (video_variants s') \<subseteq> set (video_variants t)"
  shows "\<exists>r. insert_groups cfg v gs t = (r, t)"
  using assms
proof (induction gs arbitrary: s)
  case Nil
  then show ?case by simp
next
  case (Cons g gs)
  show ?case
  proof (cases "OutputDetails g")
    case None
    with Cons show ?thesis by simp
  next
    case (Some outs)
    obtain r s1 where o: "insert_outputs cfg v outs s = (r, s1)" by fastforce
    from Cons.prems Some o obtain x where r: "r = Inr x" by (cases r) simp_all
    have rest: "insert_groups cfg v gs s1 = (Inr u, s')"
      using Cons.prems Some o r by simp
    have "set (video_variants s1) \<subseteq> set (video_variants t)"
      using insert_groups_grows[OF rest] Cons.prems(2) by auto
    from insert_outputs_again[OF o[unfolded r] this]
    obtain r' where o': "insert_outputs cfg v outs t = (r', t)" ..
    show ?thesis
    proof (cases r')
      case (Inl err)
      with o' Some show ?thesis by simp
    next
      case (Inr y)
      with o' Some Cons.IH[OF rest Cons.prems(2)] show ?thesis by simp
    qed
  qed
qed

lemma updateVideoVariantsFromAWS_grows:
  "updateVideoVariantsFromAWS cfg v job s = (Inr u, s') \<Longrightarrow>
   videos s' = videos s \<and> redis s' = redis s \<and> set (video_variants s) \<subseteq> set (video_variants s')"
  by (auto simp: updateVideoVariantsFromAWS_def split: option.splits dest: insert_groups_grows)

lemma updateVideoVariantsFromAWS_again:
  assumes "updateVideoVariantsFromAWS cfg v job s = (Inr u, s')"
      and "set (video_variants s') \<subseteq> set (video_variants t)"
  shows "\<exists>r. updateVideoVariantsFromAWS cfg v job t = (r, t)"
  using assms insert_groups_again
  by (auto simp: updateVideoVariantsFromAWS_def split: option.splits)

lemma updateVideoStatus_same:
  "status_of s v = Some st \<Longrightarrow> videos (updateVideoStatus v st s) = videos s"
  by (rule ext) (auto simp: status_of_def)

lemma set_thumbnail_url_sel [simp]:
  "video_variants (set_thumbnail_url v s) = video_variants s"
  "redis (set_thumbnail_url v s) = redis s"
  "map_option status (videos (set_thumbnail_url v s) w) = map_option status (videos s w)"
  by (simp_all add: set_thumbnail_url_def option.map_comp comp_def)

lemma variants_of_frame [simp]:
  "variants_of (set_thumbnail_url v s) w = variants_of s w"
  "variants_of (updateVideoStatus v st s) w = variants_of s w"
  "variants_of (updateVideoMetadata v d s) w = variants_of s w"
  "variants_of (cacheProcessingStatus e v js s) w = variants_of s w"
  "variants_of (invalidateVideoCache v s) w = variants_of s w"
  by (simp_all add: variants_of_def)

lemma status_of_frame [simp]:
  "status_of (set_thumbnail_url v s) w = status_of s w"
  "status_of (updateVideoMetadata v d s) w = status_of s w"
  "status_of (cacheProcessingStatus e v js s) w = status_of s w"
  "status_of (invalidateVideoCache v s) w = status_of s w"
  "status_of (publish_variant_urls cfg v rs s) w = status_of s w"
  "status_of (s\<lparr>video_variants := rs\<rparr>) w = status_of s w"
  by (simp_all add: status_of_def option.map_comp comp_def)

lemma status_of_updateVideoStatus [simp]:
  "status_of (updateVideoStatus v st s) w =
     (if w = v then map_option (\<lambda>x. st) (status_of s v) else status_of s w)"
  by (simp add: status_of_def option.map_comp comp_def)

lemma variants_of_app:
  "variants_of (s\<lparr>video_variants := video_variants s @ rs\<rparr>) v
     = variants_of s v @ filter (\<lambda>r. video_id r = v) rs"
  by (simp add: variants_of_def)

lemma rendition_encoded_row [simp]:
  "rendition (encoded_row e od v q) = rung q" "video_id (encoded_row e od v q) = v"
  by (simp_all add: rendition_def rung_def encoded_row_def local_variant_row_def)

section \<open>The ordering of the variants of a video\<close>

lemma getVideoVariants_mset:
  "mset (getVideoVariants s v) = mset (variants_of s v)"
  by (simp add: getVideoVariants_def variants_of_def)

lemma getVideoVariants_empty:
  "getVideoVariants s v = [] \<longleftrightarrow> variants_of s v = []"
  by (metis getVideoVariants_mset mset_zero_iff)

lemma getVideoVariants_desc:
  "sorted_wrt (\<lambda>a b. bitrate a \<ge> bitrate b) (getVideoVariants s v)"
proof -
  have "sorted (map (\<lambda>r. - bitrate r) (getVideoVariants s v))"
    by (simp add: getVideoVariants_def)
  then show ?thesis
    by (simp add: sorted_wrt_map)
qed

lemma sorted_same_mset:
  fixes xs ys :: "int list"
  assumes "mset xs = mset ys" "sorted xs" "sorted ys"
  shows "xs = ys"
proof -
  have "sort ys = xs" using assms(1,2) by (rule properties_for_sort)
  moreover have "sort ys = ys"
    using assms(3) by (rule sort_key_id_if_sorted[of "\<lambda>x. x", simplified])
  ultimately show ?thesis by simp
qed

lemma getVideoVariants_perm:
  assumes "mset (video_variants s') = mset (video_variants s)"
  shows "map bitrate (getVideoVariants s' v) = map bitrate (getVideoVariants s v)"
proof -
  let ?f = "\<lambda>r. video_id r = v"
  let ?k = "\<lambda>r. - bitrate r"
  have "mset (filter ?f (video_variants s')) = mset (filter ?f (video_variants s))"
    using assms by (metis mset_filter)
  then have "mset (getVideoVariants s' v) = mset (getVideoVariants s v)"
    by (simp only: getVideoVariants_mset variants_of_def)
  then have "image_mset ?k (mset (getVideoVariants s' v)) = image_mset ?k (mset (getVideoVariants s v))"
    by simp
  then have "mset (map ?k (getVideoVariants s' v)) = mset (map ?k (getVideoVariants s v))"
    by (simp only: mset_map)
  moreover have "sorted (map ?k (getVideoVariants s' v))" "sorted (map ?k (getVideoVariants s v))"
    by (simp_all add: getVideoVariants_def)
  ultimately have "map ?k (getVideoVariants s' v) = map ?k (getVideoVariants s v)"
    by (rule sorted_same_mset)
  then have "map uminus (map ?k (getVideoVariants s' v)) = map uminus (map ?k (getVideoVariants s v))"
    by simp
  then show ?thesis by (simp add: comp_def)
qed

section \<open>The local strategy: the loop over the rungs\<close>

lemma transcodeToQuality_fail:
  "\<not> encode_succeeds e inp od q \<Longrightarrow> \<exists>err. transcodeToQuality e inp od v q s = (Inl err, s)"
  by (auto simp: encode_succeeds_def transcodeToQuality_def Let_def split: option.splits sum.splits)

lemma transcodeToQuality_ok:
  "encode_succeeds e inp od q \<Longrightarrow>
   transcodeToQuality e inp od v q s = insert_variant (encoded_row e od v q) s"
  by (auto simp: encode_succeeds_def encoded_row_def transcodeToQuality_def Let_def
      split: option.splits sum.splits)

lemma transcode_loop_all_fail:
  "\<forall>q \<in> set qs. \<not> encode_succeeds e inp od q \<Longrightarrow>
   transcode_loop e inp od v qs acc s = (acc, s)"
proof (induction qs arbitrary: acc s)
  case Nil
  then show ?case by simp
next
  case (Cons q qs)
  then obtain err where "transcodeToQuality e inp od v q s = (Inl err, s)"
    using transcodeToQuality_fail[of e inp od q v s] by auto
  with Cons show ?case by simp
qed

lemma transcode_loop_rows:
  assumes "distinct (map name qs)"
      and "\<forall>r \<in> set (video_variants s). video_id r = v \<longrightarrow> quality r \<notin> name ` set qs"
  shows "transcode_loop e inp od v qs acc s =
           (acc @ map (encoded_row e od v) (filter (encode_succeeds e inp od) qs),
            s\<lparr>video_variants := video_variants s
                 @ map (encoded_row e od v) (filter (encode_succeeds e inp od) qs)\<rparr>)"
  using assms
proof (induction qs arbitrary: acc s)
  case Nil
  then show ?case by simp
next
  case (Cons q qs)
  show ?case
  proof (cases "encode_succeeds e inp od q")
    case False
    then obtain err where "transcodeToQuality e inp od v q s = (Inl err, s)"
      using transcodeToQuality_fail[of e inp od q v s] by auto
    moreover have "distinct (map name qs)" using Cons.prems by simp
    moreover have "\<forall>r \<in> set (video_variants s). video_id r = v \<longrightarrow> quality r \<notin> name ` set qs"
      using Cons.prems by auto
    ultimately show ?thesis using Cons.IH[of s acc] False by simp
  next
    case True
    let ?row = "encoded_row e od v q"
    let ?s' = "s\<lparr>video_variants := video_variants s @ [?row]\<rparr>"
    have key: "video_id ?row = v" "quality ?row = name q"
      by (simp_all add: encoded_row_def local_variant_row_def)
    have "\<not> (\<exists>r \<in> set (video_variants s). video_id r = video_id ?row \<and> quality r = quality ?row)"
      using Cons.prems(2) key by auto
    then have ins: "transcodeToQuality e inp od v q s = (Inr ?row, ?s')"
      using True by (simp add: transcodeToQuality_ok insert_variant_def)
    have d: "distinct (map name qs)" using Cons.prems by simp
    have "\<forall>r \<in> set (video_variants ?s'). video_id r = v \<longrightarrow> quality r \<notin> name ` set qs"
      using Cons.prems key by auto
    from Cons.IH[OF d this, of "acc @ [?row]"] ins True show ?thesis by simp
  qed
qed

lemma processWithFFmpeg_ok:
  assumes dir: "mkdir e (processed_dir cfg videoId) = None"
      and thumb: "screenshots e inputPath (processed_dir cfg videoId) = None"
      and master: "\<forall>text. fs_writeFile e (path_join (processed_dir cfg videoId) ''master.m3u8'') text = None"
      and publish: "storage_type cfg = S3Storage \<longrightarrow>
                    uploadDirectoryToS3 e (''videos/'' @ videoId) (processed_dir cfg videoId) = None"
      and loop: "transcodeToMultipleQualities cfg e inputPath (processed_dir cfg videoId) videoId
                   (set_thumbnail_url videoId t) = (rows, t2)"
  shows "processWithFFmpeg cfg e videoId inputPath t =
           (Inr (), if storage_type cfg = S3Storage
                    then publish_variant_urls cfg videoId rows t2 else t2)"
proof -
  have th: "generateThumbnail e inputPath (processed_dir cfg videoId) videoId t
              = (Inr (path_join (processed_dir cfg videoId) ''thumbnail.jpg''), set_thumbnail_url videoId t)"
    using thumb by (simp add: generateThumbnail_def)
  have hl: "generateHLSPlaylists e rows (processed_dir cfg videoId) videoId t2 = (Inr (), t2)"
    using master by (simp add: generateHLSPlaylists_def)
  show ?thesis
    using dir publish by (simp add: processWithFFmpeg_def Let_def th loop hl)
qed

lemma processVideo_local_ok:
  assumes local: "\<not> cloud_configured cfg"
      and probe: "ffprobe e inputPath = Inr d"
      and ff: "processWithFFmpeg cfg e videoId inputPath
                 (updateVideoMetadata videoId d (cacheProcessingStatus e videoId
                    [(''status'', JStr ''processing''), (''progress'', JNum 10)]
                    (updateVideoStatus videoId Processing s))) = (Inr (), t)"
  shows "processVideo cfg e videoId inputPath s =
           (Inr (), invalidateVideoCache videoId (cacheProcessingStatus e videoId
              [(''status'', JStr ''ready''), (''progress'', JNum 100)]
              (updateVideoStatus videoId Ready t)))"
  using local by (simp add: processVideo_def processVideo_body_def Let_def probe ff)

section \<open>How the operations extend a state\<close>

lemma extends_refl [simp]: "extends cfg s s"
  by (auto simp: extends_def rows_kept_def rows_from_def)

lemma extends_trans: "extends cfg s t \<Longrightarrow> extends cfg t u \<Longrightarrow> extends cfg s u"
proof -
  assume a: "extends cfg s t" and b: "extends cfg t u"
  have "rows_kept s u"
    using a b unfolding extends_def rows_kept_def by (metis (no_types, lifting))
  moreover have "rows_from cfg s u"
    unfolding rows_from_def
  proof
    fix r'' assume "r'' \<in> set (video_variants u)"
    then consider "quality r'' \<in> name ` set (video_qualities cfg)"
      | r' where "r' \<in> set (video_variants t)" "video_id r' = video_id r''" "rendition r' = rendition r''"
      using b unfolding extends_def rows_from_def by blast
    then show "quality r'' \<in> name ` set (video_qualities cfg)
        \<or> (\<exists>r \<in> set (video_variants s). video_id r = video_id r'' \<and> rendition r = rendition r'')"
    proof cases
      case 1
      then show ?thesis by simp
    next
      case 2
      then have q: "quality r' = quality r''" by (simp add: rendition_def)
      from 2(1) a have "quality r' \<in> name ` set (video_qualities cfg)
        \<or> (\<exists>r \<in> set (video_variants s). video_id r = video_id r' \<and> rendition r = rendition r')"
        unfolding extends_def rows_from_def by blast
      with 2 q show ?thesis by auto
    qed
  qed
  moreover have "\<forall>k. streaming_key k \<longrightarrow> redis u k = redis s k"
    using a b unfolding extends_def by simp
  ultimately show ?thesis by (simp add: extends_def)
qed

lemma extends_frame:
  "video_variants t = video_variants s \<Longrightarrow> (\<And>k. streaming_key k \<Longrightarrow> redis t k = redis s k)
   \<Longrightarrow> extends cfg s t"
  by (auto simp: extends_def rows_kept_def rows_from_def)

lemma streaming_key_not_video [simp]:
  "streaming_key k \<Longrightarrow> k \<noteq> ''video:processing:'' @ v"
  "streaming_key k \<Longrightarrow> k \<notin> set (video_cache_keys v)"
  by (auto simp: streaming_key_def video_cache_keys_def)

lemma redis_invalidateVideoCache:
  "redis (invalidateVideoCache v s) k = (if k \<in> set (video_cache_keys v) then None else redis s k)"
  by (simp add: invalidateVideoCache_def video_cache_keys_def)

lemma redis_cacheProcessingStatus:
  "streaming_key k \<Longrightarrow> redis (cacheProcessingStatus e v js s) k = redis s k"
  using streaming_key_not_video(1)[of k v] by (simp add: cacheProcessingStatus_def)

lemma extends_prims [simp]:
  "extends cfg s (updateVideoStatus v st s)"
  "extends cfg s (updateVideoMetadata v d s)"
  "extends cfg s (set_thumbnail_url v s)"
  "extends cfg s (update_video v f s)"
  "extends cfg s (cacheProcessingStatus e v js s)"
  "extends cfg s (invalidateVideoCache v s)"
  by (rule extends_frame; simp add: redis_cacheProcessingStatus redis_invalidateVideoCache)+

lemma extends_insert_variant:
  "quality row \<in> name ` set (video_qualities cfg) \<Longrightarrow> extends cfg s (snd (insert_variant row s))"
  by (auto simp: insert_variant_def extends_def rows_kept_def rows_from_def)

lemma extends_map:
  assumes "\<And>x. video_id (f x) = video_id x" "\<And>x. rendition (f x) = rendition x"
      and "video_variants s' = map f (video_variants s)" and "redis s' = redis s"
  shows "extends cfg s s'"
proof -
  have "rows_kept s s'"
    unfolding rows_kept_def
  proof
    fix r assume "r \<in> set (video_variants s)"
    then have "f r \<in> set (video_variants s')" using assms(3) by simp
    then show "\<exists>r' \<in> set (video_variants s'). video_id r' = video_id r \<and> rendition r' = rendition r"
      using assms(1,2) by blast
  qed
  moreover have "rows_from cfg s s'"
    unfolding rows_from_def
  proof
    fix r' assume "r' \<in> set (video_variants s')"
    then obtain r where "r \<in> set (video_variants s)" "r' = f r" using assms(3) by auto
    then show "quality r' \<in> name ` set (video_qualities cfg)
        \<or> (\<exists>r \<in> set (video_variants s). video_id r = video_id r' \<and> rendition r = rendition r')"
      using assms(1,2) by metis
  qed
  ultimately show ?thesis using assms(4) by (simp add: extends_def)
qed

lemma extends_update_playlist_url: "extends cfg s (update_playlist_url r u s)"
  by (rule extends_map[where f = "\<lambda>x. if video_id x = video_id r \<and> quality x = quality r
                  then x\<lparr>hls_playlist_url := Some u\<rparr> else x"])
     (simp_all add: rendition_def update_playlist_url_def)

lemma extends_publish: "extends cfg s (publish_variant_urls cfg v rs s)"
  unfolding publish_variant_urls_def
proof (induction rs arbitrary: s)
  case Nil
  then show ?case by simp
next
  case (Cons r rs)
  let ?u = "getS3PublicUrl cfg (str_opt (storage_s3Bucket cfg))
               (''videos/'' @ v @ ''/'' @ quality r @ ''.m3u8'')"
  have "extends cfg s (update_playlist_url r ?u s)" by (rule extends_update_playlist_url)
  from extends_trans[OF this Cons[of "update_playlist_url r ?u s"]]
  show ?case by simp
qed

lemma extends_transcodeToQuality:
  "q \<in> set (video_qualities cfg) \<Longrightarrow> extends cfg s (snd (transcodeToQuality e inp od v q s))"
  by (auto simp: transcodeToQuality_def Let_def local_variant_row_def
      intro!: extends_insert_variant split: option.splits sum.splits)

lemma extends_transcode_loop:
  "set qs \<subseteq> set (video_qualities cfg) \<Longrightarrow> extends cfg s (snd (transcode_loop e inp od v qs acc s))"
proof (induction qs arbitrary: acc s)
  case Nil
  then show ?case by simp
next
  case (Cons q qs)
  obtain r s1 where t: "transcodeToQuality e inp od v q s = (r, s1)" by fastforce
  have "extends cfg s s1" using extends_transcodeToQuality[of q cfg s e inp od v] t Cons.prems by simp
  moreover have "\<And>acc'. extends cfg s1 (snd (transcode_loop e inp od v qs acc' s1))"
    using Cons by simp
  ultimately have "\<And>acc'. extends cfg s (snd (transcode_loop e inp od v qs acc' s1))"
    using extends_trans by blast
  then show ?case
    using t by (cases r) auto
qed

lemma extends_transcodeToMultipleQualities:
  "extends cfg s (snd (transcodeToMultipleQualities cfg e inp od v s))"
  by (simp add: transcodeToMultipleQualities_def extends_transcode_loop)

lemma extends_generateThumbnail: "extends cfg s (snd (generateThumbnail e inp od v s))"
  by (simp add: generateThumbnail_def split: option.splits)

lemma extends_generateHLSPlaylists: "extends cfg s (snd (generateHLSPlaylists e rs od v s))"
  by (simp add: generateHLSPlaylists_def split: option.splits)

lemma extends_processWithFFmpeg: "extends cfg s (snd (processWithFFmpeg cfg e v inp s))"
proof -
  let ?od = "processed_dir cfg v"
  obtain r1 s1 where g: "generateThumbnail e inp ?od v s = (r1, s1)" by fastforce
  obtain rows s2 where t: "transcodeToMultipleQualities cfg e inp ?od v s1 = (rows, s2)" by fastforce
  obtain r3 s3 where h: "generateHLSPlaylists e rows ?od v s2 = (r3, s3)" by fastforce
  have e1: "extends cfg s s1" using extends_generateThumbnail[of cfg s e inp ?od v] g by simp
  have "extends cfg s1 s2" using extends_transcodeToMultipleQualities[of cfg s1 e inp ?od v] t by simp
  then have e2: "extends cfg s s2" using e1 extends_trans by blast
  have "extends cfg s2 s3" using extends_generateHLSPlaylists[of cfg s2 e rows ?od v] h by simp
  then have e3: "extends cfg s s3" using e2 extends_trans by blast
  have e4: "extends cfg s (publish_variant_urls cfg v rows s3)"
    using e3 extends_publish extends_trans by blast
  show ?thesis
    using e1 e3 e4
    by (simp add: processWithFFmpeg_def Let_def g t h split: option.splits sum.splits)
qed

lemma extends_processWithAWSMediaConvert:
  "extends cfg s (snd (processWithAWSMediaConvert cfg e v inp s))"
proof (cases "createTranscodingJob e v")
  case (Inl err)
  then show ?thesis
    by (simp add: processWithAWSMediaConvert_def Let_def split: sum.splits)
next
  case (Inr j)
  let ?od = "processed_dir cfg v"
  let ?s1 = "update_video v (\<lambda>row. row\<lparr>processing_job_id := Some j\<rparr>) s"
  obtain r2 s2 where g: "generateThumbnail e inp ?od v ?s1 = (r2, s2)" by fastforce
  have e1: "extends cfg s ?s1" by simp
  have "extends cfg ?s1 s2" using extends_generateThumbnail[of cfg ?s1 e inp ?od v] g by simp
  then have e2: "extends cfg s s2" using e1 extends_trans by blast
  have e3: "\<And>js. extends cfg s (cacheProcessingStatus e v js s2)"
    using e2 extends_prims(5) extends_trans by blast
  show ?thesis
    using e1 e2 e3
    by (simp add: processWithAWSMediaConvert_def Let_def Inr g split: option.splits sum.splits)
qed

lemma extends_processVideo: "extends cfg s (snd (processVideo cfg e v inp s))"
proof -
  have step: "\<And>t u. extends cfg s t \<Longrightarrow> extends cfg t u \<Longrightarrow> extends cfg s u" by (rule extends_trans)
  let ?s2 = "cacheProcessingStatus e v [(''status'', JStr ''processing''), (''progress'', JNum 10)]
               (updateVideoStatus v Processing s)"
  have e2: "extends cfg s ?s2" by (rule step[OF extends_prims(1) extends_prims(5)])
  have fin: "\<And>t js. extends cfg s t \<Longrightarrow> extends cfg s (cacheProcessingStatus e v js (updateVideoStatus v Failed t))"
    by (meson step extends_prims)
  have ok: "\<And>t js. extends cfg s t \<Longrightarrow>
               extends cfg s (invalidateVideoCache v (cacheProcessingStatus e v js (updateVideoStatus v Ready t)))"
    by (meson step extends_prims)
  have e3: "\<And>d. extends cfg s (updateVideoMetadata v d ?s2)"
    by (meson step e2 extends_prims)
  have body: "extends cfg s (snd (processVideo_body cfg e v inp s))"
  proof (cases "ffprobe e inp")
    case (Inl err)
    then show ?thesis using e2 by (simp add: processVideo_body_def Let_def)
  next
    case (Inr d)
    let ?s3 = "updateVideoMetadata v d ?s2"
    let ?p = "if cloud_configured cfg then processWithAWSMediaConvert cfg e v inp ?s3
              else processWithFFmpeg cfg e v inp ?s3"
    obtain r4 s4 where p: "?p = (r4, s4)" by fastforce
    have "extends cfg ?s3 (snd ?p)"
      by (simp add: extends_processWithAWSMediaConvert extends_processWithFFmpeg)
    then have e4: "extends cfg s s4" using e3[of d] p step by simp
    show ?thesis
      using e4 ok[OF e4] p
      by (cases r4) (simp_all add: processVideo_body_def Let_def Inr)
  qed
  obtain r t where b: "processVideo_body cfg e v inp s = (r, t)" by fastforce
  with body have "extends cfg s t" by simp
  then show ?thesis
    using fin b by (auto simp: processVideo_def split: sum.splits error.splits)
qed

lemma extractQualityFromPath_configured:
  "extractQualityFromPath cfg p = Some q \<Longrightarrow> q \<in> set (video_qualities cfg)"
  by (auto simp: extractQualityFromPath_def Let_def find_Some_iff split: if_splits)

lemma output_row_named:
  "output_row cfg v out = Some row \<Longrightarrow> quality row \<in> name ` set (video_qualities cfg)"
  by (auto simp: output_row_def aws_variant_row_def dest!: extractQualityFromPath_configured
      split: option.splits list.splits)

lemma extends_insert_outputs: "extends cfg s (snd (insert_outputs cfg v outs s))"
proof (induction outs arbitrary: s)
  case Nil
  then show ?case by simp
next
  case (Cons out outs)
  show ?case
  proof (cases "output_row cfg v out")
    case None
    with Cons show ?thesis by (simp add: insert_outputs_step del: insert_outputs.simps)
  next
    case (Some row)
    obtain r s1 where ins: "insert_variant row s = (r, s1)" by fastforce
    have e1: "extends cfg s s1"
      using extends_insert_variant[OF output_row_named[OF Some], of s] ins by simp
    have "extends cfg s1 (snd (insert_outputs cfg v outs s1))" by (rule Cons)
    then have "extends cfg s (snd (insert_outputs cfg v outs s1))" using e1 extends_trans by blast
    then show ?thesis
      using e1 Some ins by (cases r) (simp_all add: insert_outputs_step del: insert_outputs.simps)
  qed
qed

lemma extends_insert_groups: "extends cfg s (snd (insert_groups cfg v gs s))"
proof (induction gs arbitrary: s)
  case Nil
  then show ?case by simp
next
  case (Cons g gs)
  show ?case
  proof (cases "OutputDetails g")
    case None
    with Cons show ?thesis by simp
  next
    case (Some outs)
    obtain r s1 where o: "insert_outputs cfg v outs s = (r, s1)" by fastforce
    have e1: "extends cfg s s1" using extends_insert_outputs[of cfg s v outs] o by simp
    have "extends cfg s1 (snd (insert_groups cfg v gs s1))" by (rule Cons)
    then have "extends cfg s (snd (insert_groups cfg v gs s1))" using e1 extends_trans by blast
    then show ?thesis
      using e1 Some o by (cases r) simp_all
  qed
qed

lemma extends_updateVideoVariantsFromAWS:
  "extends cfg s (snd (updateVideoVariantsFromAWS cfg v job s))"
  by (simp add: updateVideoVariantsFromAWS_def extends_insert_groups split: option.splits)

lemma extends_checkAWSJobStatus: "extends cfg s (snd (checkAWSJobStatus cfg e v s))"
proof (cases "videos s v")
  case None
  then show ?thesis by (simp add: checkAWSJobStatus_def)
next
  case (Some video)
  show ?thesis
  proof (cases "getJobStatus e (str_opt (processing_job_id video))")
    case (Inl err)
    with Some show ?thesis by (simp add: checkAWSJobStatus_def)
  next
    case (Inr job)
    let ?s1 = "cacheProcessingStatus e v
                 ([(''status'', JStr (JobStatus_string (job_status job))),
                   (''progress'', JNum (progress job)),
                   (''jobId'', JStr (str_opt (processing_job_id video)))]
                  @ opt_field ''error'' (errorMessage job)) s"
    obtain r s2 where u: "updateVideoVariantsFromAWS cfg v job ?s1 = (r, s2)" by fastforce
    have e1: "extends cfg s ?s1" by simp
    have "extends cfg ?s1 s2" using extends_updateVideoVariantsFromAWS[of cfg ?s1 v job] u by simp
    then have e2: "extends cfg s s2" using e1 extends_trans by blast
    have e3: "extends cfg s (invalidateVideoCache v (updateVideoStatus v Ready s2))"
      by (meson e2 extends_trans extends_prims)
    have e4: "\<And>js. extends cfg s (updateVideoStatus v Failed (cacheProcessingStatus e v js s))"
      by (meson extends_trans extends_prims)
    show ?thesis
    proof (cases "job_status job = COMPLETE")
      case True
      then show ?thesis
        using e2 e3 Some Inr u
        by (cases r) (simp_all add: checkAWSJobStatus_def Let_def)
    next
      case False
      then show ?thesis
        using e4 Some Inr
        by (simp add: checkAWSJobStatus_def Let_def)
    qed
  qed
qed

section \<open>The invariant of the reachable states\<close>

lemma streaming_key_manifest [simp]: "streaming_key (manifest_key v)"
  by (simp add: streaming_key_def manifest_key_def)

lemma manifest_key_inj [simp]: "manifest_key v = manifest_key w \<longleftrightarrow> v = w"
  by (simp add: manifest_key_def)

lemma manifest_key_not_playlist [simp]:
  "take 9 (manifest_key v) \<noteq> ''playlist:''" "manifest_key v \<noteq> playlist_key w q"
  by (simp_all add: manifest_key_def playlist_key_def)

lemma take_playlist_key [simp]: "take 9 (playlist_key v q) = ''playlist:''"
  by (simp add: playlist_key_def)

lemma variants_of_kept:
  assumes "rows_kept s s'" "r \<in> set (variants_of s v)"
  shows "\<exists>r' \<in> set (variants_of s' v). rendition r' = rendition r"
  using assms unfolding rows_kept_def variants_of_def by fastforce

lemma lists_renditions_extends:
  assumes "extends cfg s s'" "lists_renditions s v m"
  shows "lists_renditions s' v m"
proof -
  from assms(2) obtain vs where vs: "m = master_manifest vs" "vs \<noteq> []"
      "sorted_wrt (\<lambda>a b. bitrate b \<le> bitrate a) vs"
      "\<forall>x \<in> set vs. \<exists>r \<in> set (variants_of s v). rendition r = rendition x"
    unfolding lists_renditions_def by blast
  have "\<forall>x \<in> set vs. \<exists>r \<in> set (variants_of s' v). rendition r = rendition x"
  proof
    fix x assume "x \<in> set vs"
    with vs(4) obtain r where r: "r \<in> set (variants_of s v)" "rendition r = rendition x" by blast
    from variants_of_kept[OF _ r(1), of s'] assms(1) obtain r' where
      "r' \<in> set (variants_of s' v)" "rendition r' = rendition r"
      unfolding extends_def by blast
    with r(2) show "\<exists>r \<in> set (variants_of s' v). rendition r = rendition x" by auto
  qed
  with vs(1,2,3) show ?thesis unfolding lists_renditions_def by blast
qed

lemma cache_inv_extends:
  assumes "extends cfg s s'" "cache_inv cfg s"
  shows "cache_inv cfg s'"
proof -
  have k: "\<And>k. streaming_key k \<Longrightarrow> redis s' k = redis s k"
    using assms(1) by (simp add: extends_def)
  have "manifest_cache_ok s'"
    unfolding manifest_cache_ok_def
  proof (intro allI impI)
    fix v m assume "cache_hit (redis s' (manifest_key v)) = Some m"
    then have "cache_hit (redis s (manifest_key v)) = Some m" by (simp add: k)
    then have "lists_renditions s v m"
      using assms(2) by (simp add: cache_inv_def manifest_cache_ok_def)
    then show "lists_renditions s' v m" by (rule lists_renditions_extends[OF assms(1)])
  qed
  moreover have "rows_named cfg s'"
    unfolding rows_named_def
  proof
    fix r' assume "r' \<in> set (video_variants s')"
    then consider "quality r' \<in> name ` set (video_qualities cfg)"
      | r where "r \<in> set (video_variants s)" "rendition r = rendition r'"
      using assms(1) unfolding extends_def rows_from_def by blast
    then show "quality r' \<in> name ` set (video_qualities cfg)"
    proof cases
      case 1
      then show ?thesis .
    next
      case 2
      then have "quality r = quality r'" by (simp add: rendition_def)
      moreover have "quality r \<in> name ` set (video_qualities cfg)"
        using 2(1) assms(2) by (simp add: cache_inv_def rows_named_def)
      ultimately show ?thesis by simp
    qed
  qed
  moreover have "playlist_cache_ok cfg s'"
    unfolding playlist_cache_ok_def
  proof (intro allI impI)
    fix key m assume h: "cache_hit (redis s' key) = Some m" "take 9 key = ''playlist:''"
    then have "streaming_key key" by (simp add: streaming_key_def)
    with h(1) have "cache_hit (redis s key) = Some m" by (simp add: k)
    with h(2) assms(2)
    show "\<exists>videoId q. key = playlist_key videoId q \<and> q \<in> name ` set (video_qualities cfg)
            \<and> m = quality_playlist q"
      unfolding cache_inv_def playlist_cache_ok_def by blast
  qed
  ultimately show ?thesis by (simp add: cache_inv_def)
qed

lemma getVideoVariants_set: "set (getVideoVariants s v) = set (variants_of s v)"
  by (simp add: getVideoVariants_def variants_of_def)

lemma lists_renditions_fresh:
  "getVideoVariants s v \<noteq> [] \<Longrightarrow> variants_of s' v = variants_of s v \<Longrightarrow>
   lists_renditions s' v (master_manifest (getVideoVariants s v))"
proof -
  assume ne: "getVideoVariants s v \<noteq> []" and vo: "variants_of s' v = variants_of s v"
  have "\<forall>x \<in> set (getVideoVariants s v). \<exists>r \<in> set (variants_of s' v). rendition r = rendition x"
    using getVideoVariants_set[of s v] vo by auto
  with ne getVideoVariants_desc[of s v] show ?thesis
    unfolding lists_renditions_def by blast
qed

lemma lists_renditions_cong:
  "variants_of s' v = variants_of s v \<Longrightarrow> lists_renditions s' v m = lists_renditions s v m"
  by (simp add: lists_renditions_def)

lemma cache_inv_generateHLSManifest:
  assumes "cache_inv cfg s"
  shows "cache_inv cfg (snd (generateHLSManifest v s))"
proof (cases "cache_hit (redis s (manifest_key v)) = None \<and> getVideoVariants s v \<noteq> []")
  case False
  then have "snd (generateHLSManifest v s) = s"
    by (auto simp: generateHLSManifest_def Let_def split: option.splits)
  with assms show ?thesis by simp
next
  case True
  let ?m = "master_manifest (getVideoVariants s v)"
  let ?s' = "redis_setex (manifest_key v) ?m s"
  have s': "snd (generateHLSManifest v s) = ?s'"
    using True by (simp add: generateHLSManifest_def Let_def)
  have vo: "\<And>w. variants_of ?s' w = variants_of s w" by (simp add: variants_of_def)
  have "manifest_cache_ok ?s'"
    unfolding manifest_cache_ok_def
  proof (intro allI impI)
    fix w m assume h: "cache_hit (redis ?s' (manifest_key w)) = Some m"
    show "lists_renditions ?s' w m"
    proof (cases "w = v")
      case True
      with h have "m = ?m" by (auto simp: cache_hit_def split: if_splits)
      with True \<open>cache_hit (redis s (manifest_key v)) = None \<and> getVideoVariants s v \<noteq> []\<close>
      show ?thesis using lists_renditions_fresh[OF _ vo, of v] by simp
    next
      case False
      with h have "cache_hit (redis s (manifest_key w)) = Some m" by simp
      then have "lists_renditions s w m"
        using assms by (simp add: cache_inv_def manifest_cache_ok_def)
      then show ?thesis by (simp add: lists_renditions_cong[OF vo])
    qed
  qed
  moreover have "rows_named cfg ?s'"
    using assms by (simp add: cache_inv_def rows_named_def)
  moreover have "playlist_cache_ok cfg ?s'"
    unfolding playlist_cache_ok_def
  proof (intro allI impI)
    fix key m assume h: "cache_hit (redis ?s' key) = Some m" "take 9 key = ''playlist:''"
    then have "key \<noteq> manifest_key v" by auto
    with h(1) have "cache_hit (redis s key) = Some m" by simp
    with h(2) assms
    show "\<exists>videoId q. key = playlist_key videoId q \<and> q \<in> name ` set (video_qualities cfg)
            \<and> m = quality_playlist q"
      unfolding cache_inv_def playlist_cache_ok_def by blast
  qed
  ultimately show ?thesis by (simp add: cache_inv_def s')
qed

lemma cache_inv_generateQualityPlaylist:
  assumes "cache_inv cfg s"
  shows "cache_inv cfg (snd (generateQualityPlaylist v q s))"
proof (cases "cache_hit (redis s (playlist_key v q)) = None
              \<and> find (\<lambda>r. video_id r = v \<and> quality r = q) (video_variants s) \<noteq> None")
  case False
  then have "snd (generateQualityPlaylist v q s) = s"
    by (auto simp: generateQualityPlaylist_def Let_def split: option.splits)
  with assms show ?thesis by simp
next
  case True
  let ?s' = "redis_setex (playlist_key v q) (quality_playlist q) s"
  have s': "snd (generateQualityPlaylist v q s) = ?s'"
    using True by (auto simp: generateQualityPlaylist_def Let_def)
  from True obtain r where "r \<in> set (video_variants s)" "quality r = q"
    by (auto simp: find_None_iff)
  then have named: "q \<in> name ` set (video_qualities cfg)"
    using assms by (auto simp: cache_inv_def rows_named_def)
  have vo: "\<And>w. variants_of ?s' w = variants_of s w" by (simp add: variants_of_def)
  have "manifest_cache_ok ?s'"
    unfolding manifest_cache_ok_def
  proof (intro allI impI)
    fix w m assume "cache_hit (redis ?s' (manifest_key w)) = Some m"
    then have "cache_hit (redis s (manifest_key w)) = Some m" by simp
    then have "lists_renditions s w m"
      using assms by (simp add: cache_inv_def manifest_cache_ok_def)
    then show "lists_renditions ?s' w m" by (simp add: lists_renditions_cong[OF vo])
  qed
  moreover have "rows_named cfg ?s'"
    using assms by (simp add: cache_inv_def rows_named_def)
  moreover have "playlist_cache_ok cfg ?s'"
    unfolding playlist_cache_ok_def
  proof (intro allI impI)
    fix key m assume h: "cache_hit (redis ?s' key) = Some m" "take 9 key = ''playlist:''"
    show "\<exists>videoId q. key = playlist_key videoId q \<and> q \<in> name ` set (video_qualities cfg)
            \<and> m = quality_playlist q"
    proof (cases "key = playlist_key v q")
      case True
      with h(1) have "m = quality_playlist q" by (auto simp: cache_hit_def split: if_splits)
      with True named show ?thesis by blast
    next
      case False
      with h(1) have "cache_hit (redis s key) = Some m" by simp
      with h(2) assms show ?thesis unfolding cache_inv_def playlist_cache_ok_def by blast
    qed
  qed
  ultimately show ?thesis by (simp add: cache_inv_def s')
qed

lemma cache_inv_redis_del:
  assumes "cache_inv cfg s"
  shows "cache_inv cfg (redis_del k s)"
proof -
  have vo: "\<And>w. variants_of (redis_del k s) w = variants_of s w" by (simp add: variants_of_def)
  have sub: "\<And>key m. cache_hit (redis (redis_del k s) key) = Some m \<Longrightarrow> cache_hit (redis s key) = Some m"
    by (auto simp: cache_hit_def split: if_splits)
  have "manifest_cache_ok (redis_del k s)"
    using assms sub unfolding cache_inv_def manifest_cache_ok_def
    by (metis lists_renditions_cong[OF vo])
  moreover have "rows_named cfg (redis_del k s)"
    using assms by (simp add: cache_inv_def rows_named_def)
  moreover have "playlist_cache_ok cfg (redis_del k s)"
    using assms sub unfolding cache_inv_def playlist_cache_ok_def by blast
  ultimately show ?thesis by (simp add: cache_inv_def)
qed

lemma reachable_cache_inv: "reachable cfg s \<Longrightarrow> cache_inv cfg s"
proof (induction rule: reachable.induct)
  case start
  show ?case
    by (simp add: cache_inv_def manifest_cache_ok_def rows_named_def playlist_cache_ok_def cache_hit_def)
next
  case (videos_changed s vs)
  have "extends cfg s (s\<lparr>videos := vs\<rparr>)" by (rule extends_frame) simp_all
  then show ?case using videos_changed.IH by (rule cache_inv_extends)
next
  case (pipeline_run s e videoId inputPath)
  show ?case by (rule cache_inv_extends[OF extends_processVideo pipeline_run.IH])
next
  case (poll s e videoId)
  show ?case by (rule cache_inv_extends[OF extends_checkAWSJobStatus poll.IH])
next
  case (manifest_request s videoId)
  then show ?case by (simp add: cache_inv_generateHLSManifest)
next
  case (playlist_request s videoId q)
  then show ?case by (simp add: cache_inv_generateQualityPlaylist)
next
  case (other_cache_write s k x)
  have "extends cfg s (redis_setex k x s)"
    using other_cache_write.hyps(2) by (intro extends_frame) auto
  then show ?case using other_cache_write.IH by (rule cache_inv_extends)
next
  case (cache_delete s k)
  then show ?case by (simp add: cache_inv_redis_del)
qed

lemma reachable_fresh_state: "reachable local_config fresh_state"
proof -
  have "\<lparr>videos = Map.empty, video_variants = [], redis = Map.empty\<rparr>\<lparr>videos := [''v1'' \<mapsto> uploaded_video]\<rparr>
          = fresh_state"
    by (simp add: fresh_state_def)
  then show ?thesis
    using reachable.videos_changed[OF reachable.start, of local_config "[''v1'' \<mapsto> uploaded_video]"]
    by simp
qed

lemma reachable_served_state: "reachable local_config served_state"
  unfolding served_state_def processed_state_def
  by (rule reachable.playlist_request, rule reachable.manifest_request, rule reachable.pipeline_run,
      rule reachable_fresh_state)

lemma first_separator_unique:
  assumes "x \<notin> set xs" "x \<notin> set xs'" "xs @ x # ys = xs' @ x # ys'"
  shows "xs = xs'"
proof -
  have "takeWhile (\<lambda>y. y \<noteq> x) (xs @ x # ys) = xs"
    using assms(1) by (induction xs) auto
  moreover have "takeWhile (\<lambda>y. y \<noteq> x) (xs' @ x # ys') = xs'"
    using assms(2) by (induction xs') auto
  ultimately show ?thesis using assms(3) by simp
qed

lemma colon_free_suffix:
  assumes "v @ '':'' @ q = v' @ '':'' @ q'" "CHR '':'' \<notin> set q" "CHR '':'' \<notin> set q'"
  shows "q = q'"
proof -
  have "rev (v @ '':'' @ q) = rev (v' @ '':'' @ q')"
    using assms(1) by (rule arg_cong)
  then have eq: "rev q @ CHR '':'' # rev v = rev q' @ CHR '':'' # rev v'"
    by simp
  have n: "CHR '':'' \<notin> set (rev q)" "CHR '':'' \<notin> set (rev q')"
    using assms(2,3) by simp_all
  have "rev q = rev q'"
    by (rule first_separator_unique[OF n eq])
  then show ?thesis by simp
qed

lemma master_manifest_text:
  "master_manifest vs =
     ''#EXTM3U'' @ [CHR 0x0A] @ ''#EXT-X-VERSION:3'' @ [CHR 0x0A, CHR 0x0A]
     @ concat (map (\<lambda>v. ''#EXT-X-STREAM-INF:BANDWIDTH='' @ string_of_int (bitrate v * 1000)
                        @ '',RESOLUTION='' @ string_of_int (resolution_width v)
                        @ ''x'' @ string_of_int (resolution_height v) @ [CHR 0x0A]
                        @ quality v @ ''/playlist.m3u8'' @ [CHR 0x0A, CHR 0x0A]) vs)"
proof -
  have "stream_inf = (\<lambda>v. ''#EXT-X-STREAM-INF:BANDWIDTH='' @ string_of_int (bitrate v * 1000)
                        @ '',RESOLUTION='' @ string_of_int (resolution_width v)
                        @ ''x'' @ string_of_int (resolution_height v) @ [CHR 0x0A]
                        @ quality v @ ''/playlist.m3u8'' @ [CHR 0x0A, CHR 0x0A])"
    by (rule ext) (simp add: stream_inf_def)
  then show ?thesis
    by (simp add: master_manifest_def manifest_header_def)
qed

section \<open>What the selector computes\<close>

text \<open>
  On the descending list the loop either leaves at the first variant, returning the label
  of the highest bitrate, or runs to the end, returning the label of the lowest.
\<close>

lemma optimal_scan_all_fit:
  "\<forall>x \<in> set xs. of_int (bitrate x) \<le> t \<Longrightarrow>
   optimal_scan t acc xs = (if xs = [] then acc else quality (last xs))"
  by (induction xs arbitrary: acc) auto

lemma getOptimalQuality_on_descending_list:
  assumes "getVideoVariants s videoId = v0 # rest"
  shows "getOptimalQuality videoId userBandwidth s =
           (if of_int (bitrate v0) \<le> (of_int userBandwidth * (8 / 10) :: rat)
            then quality (last (v0 # rest))
            else if quality v0 = [] then ''360p'' else quality v0)"
proof (cases "of_int (bitrate v0) \<le> (of_int userBandwidth * (8 / 10) :: rat)")
  case False
  then show ?thesis using assms by (simp add: getOptimalQuality_def Let_def)
next
  case True
  have "sorted_wrt (\<lambda>a b. bitrate b \<le> bitrate a) (v0 # rest)"
    using getVideoVariants_desc[of s videoId] assms by simp
  then have "\<forall>x \<in> set (v0 # rest). bitrate x \<le> bitrate v0" by auto
  then have "\<forall>x \<in> set (v0 # rest). (of_int (bitrate x) :: rat) \<le> of_int (bitrate v0)"
    by simp
  with True have all: "\<forall>x \<in> set (v0 # rest). of_int (bitrate x) \<le> (of_int userBandwidth * (8 / 10) :: rat)"
    by (meson order_trans)
  show ?thesis
    using True assms optimal_scan_all_fit[OF all]
    by (simp add: getOptimalQuality_def Let_def del: optimal_scan.simps)
qed

section \<open>What the number rendering prints\<close>

text \<open>
  A non-negative integer is printed as its decimal digits, most significant first: the
  text consists of digits only and reads back, by positional notation, as the number.
\<close>

lemma digit_char_in_digits: "digit_char k \<in> set ''0123456789''"
  unfolding digit_char_def by (rule nth_mem) simp

lemma digit_char_value: "k < 10 \<Longrightarrow> (of_char (digit_char k) :: int) = 48 + int k"
proof -
  assume "k < 10"
  then have "k = 0 \<or> k = 1 \<or> k = 2 \<or> k = 3 \<or> k = 4 \<or> k = 5 \<or> k = 6 \<or> k = 7 \<or> k = 8 \<or> k = 9"
    by arith
  then show ?thesis by (elim disjE) (simp_all add: digit_char_def)
qed

lemma decimal_digits: "0 \<le> n \<Longrightarrow> set (decimal n) \<subseteq> set ''0123456789''"
proof (induction n rule: decimal.induct)
  case (1 n)
  show ?case
  proof (cases "n < 10")
    case True
    then show ?thesis using digit_char_in_digits[of "nat n"] by (subst decimal.simps) simp
  next
    case False
    then have "set (decimal (n div 10)) \<subseteq> set ''0123456789''" using 1 by simp
    then show ?thesis
      using False digit_char_in_digits[of "nat (n mod 10)"] by (subst decimal.simps) simp
  qed
qed

lemma decimal_value:
  "0 \<le> n \<Longrightarrow> foldl (\<lambda>a c. 10 * a + (of_char c - 48)) 0 (decimal n) = n"
proof (induction n rule: decimal.induct)
  case (1 n)
  show ?case
  proof (cases "n < 10")
    case True
    then have "nat n < 10" using 1(2) by simp
    from digit_char_value[OF this] True 1(2) show ?thesis
      by (subst decimal.simps) simp
  next
    case False
    then have ih: "foldl (\<lambda>a c. 10 * a + (of_char c - 48)) 0 (decimal (n div 10)) = n div 10"
      using 1 by simp
    have "nat (n mod 10) < 10" by simp
    from digit_char_value[OF this]
    have dv: "(of_char (digit_char (nat (n mod 10))) :: int) = 48 + n mod 10"
      by simp
    show ?thesis using False ih dv by (subst decimal.simps) simp
  qed
qed

lemma string_of_int_decimal:
  "0 \<le> n \<Longrightarrow>
   set (string_of_int n) \<subseteq> set ''0123456789''
   \<and> foldl (\<lambda>a c. 10 * a + (of_char c - 48)) 0 (string_of_int n) = n"
  using decimal_digits[of n] decimal_value[of n] unfolding string_of_int_def by simp

lemma string_of_int_negative:
  "n < 0 \<Longrightarrow> string_of_int n = CHR ''-'' # string_of_int (- n)"
  unfolding string_of_int_def by simp

section \<open>Claims\<close>

subsection \<open>The optimal quality selector\<close>

text \<open>
  C1. Claimed: for a video with renditions and a bandwidth \<open>b\<close>, \<open>getOptimalQuality\<close>
  returns the label of the highest-bitrate rendition whose bitrate is at most \<open>0.8 * b\<close>,
  and the label of the lowest-bitrate rendition when none fits. The loop is written for
  an ascending list but \<open>getVideoVariants\<close> hands it the renditions in descending order.
  With renditions 240p (400 kbps) and 1080p (5000 kbps), a bandwidth of 10000 kbps
  (target 8000) yields 240p although 1080p fits, a bandwidth of 1000 kbps (target 800)
  yields 1080p although only 240p fits, and a bandwidth of 100 kbps (target 80) yields
  1080p although nothing fits.
\<close>

theorem getOptimalQuality_scans_descending_list:
  "map quality (getVideoVariants two_rendition_state ''v1'') = [''1080p'', ''240p'']
   \<and> getOptimalQuality ''v1'' 10000 two_rendition_state = ''240p''
   \<and> getOptimalQuality ''v1'' 1000 two_rendition_state = ''1080p''
   \<and> getOptimalQuality ''v1'' 100 two_rendition_state = ''1080p''"
  by code_simp

text \<open>
  C5. Claimed: for a fixed set of renditions, a larger bandwidth never selects a
  rendition of lower bitrate. On the same two renditions the bandwidth 100 selects the
  5000 kbps rendition and the larger bandwidth 10000 selects the 400 kbps one.
\<close>

theorem selected_bitrate_drops_when_bandwidth_grows:
  "selected_bitrate ''v1'' 100 two_rendition_state = Some 5000
   \<and> selected_bitrate ''v1'' 10000 two_rendition_state = Some 400"
  by code_simp

subsection \<open>The manifest generator\<close>

text \<open>
  C6. In every reachable state, for a video with at least one persisted rendition, the
  master manifest returned by \<open>generateHLSManifest\<close> is the header followed, for a
  non-empty list of renditions of the video in non-increasing order of bandwidth, by the
  stream-info line with \<open>BANDWIDTH = bitrate * 1000\<close> and \<open>RESOLUTION = WIDTHxHEIGHT\<close>
  and the reference \<open><quality>/playlist.m3u8\<close> of each. The numbers are printed in
  decimal: digits only, reading back as the number. When no manifest is cached the
  list holds every persisted rendition of the video exactly once; a cached manifest is
  one built earlier and lists the renditions of that moment. The sequence of bandwidths
  does not depend on the order in which the rows were inserted. For the five default
  rungs the manifest is the text spelled out below, from 1080p at 5000000 down to 240p
  at 400000.
\<close>

theorem master_manifest_in_descending_bandwidth:
  assumes "reachable cfg s" and "variants_of s videoId \<noteq> []"
  shows "(\<exists>vs. fst (generateHLSManifest videoId s)
                 = Inr (''#EXTM3U'' @ [CHR 0x0A] @ ''#EXT-X-VERSION:3'' @ [CHR 0x0A, CHR 0x0A]
                        @ concat (map (\<lambda>v.
                            ''#EXT-X-STREAM-INF:BANDWIDTH='' @ string_of_int (bitrate v * 1000)
                              @ '',RESOLUTION='' @ string_of_int (resolution_width v)
                              @ ''x'' @ string_of_int (resolution_height v) @ [CHR 0x0A]
                            @ quality v @ ''/playlist.m3u8'' @ [CHR 0x0A, CHR 0x0A]) vs))
             \<and> vs \<noteq> []
             \<and> sorted_wrt (\<lambda>a b. bitrate b * 1000 \<le> bitrate a * 1000) vs
             \<and> (\<forall>x \<in> set vs. \<exists>r \<in> set (variants_of s videoId). rendition r = rendition x)
             \<and> (cache_hit (redis s (manifest_key videoId)) = None \<longrightarrow>
                  vs = getVideoVariants s videoId \<and> mset vs = mset (variants_of s videoId)))
       \<and> (\<forall>s'. mset (video_variants s') = mset (video_variants s) \<longrightarrow>
             map bitrate (getVideoVariants s' videoId) = map bitrate (getVideoVariants s videoId))
       \<and> (\<forall>n. 0 \<le> n \<longrightarrow>
             set (string_of_int n) \<subseteq> set ''0123456789''
             \<and> foldl (\<lambda>a c. 10 * a + (of_char c - 48)) 0 (string_of_int n) = n)"
proof (intro conjI)
  have ne: "getVideoVariants s videoId \<noteq> []"
    using assms(2) by (simp add: getVideoVariants_empty)
  have order: "\<And>vs. sorted_wrt (\<lambda>a b. bitrate b \<le> bitrate a) vs \<Longrightarrow>
                  sorted_wrt (\<lambda>a b. bitrate b * 1000 \<le> bitrate a * 1000) vs"
    by simp
  have "\<exists>vs. fst (generateHLSManifest videoId s) = Inr (master_manifest vs)
             \<and> vs \<noteq> []
             \<and> sorted_wrt (\<lambda>a b. bitrate b * 1000 \<le> bitrate a * 1000) vs
             \<and> (\<forall>x \<in> set vs. \<exists>r \<in> set (variants_of s videoId). rendition r = rendition x)
             \<and> (cache_hit (redis s (manifest_key videoId)) = None \<longrightarrow>
                  vs = getVideoVariants s videoId \<and> mset vs = mset (variants_of s videoId))"
  proof (cases "cache_hit (redis s (manifest_key videoId))")
    case None
    let ?vs = "getVideoVariants s videoId"
    have 1: "fst (generateHLSManifest videoId s) = Inr (master_manifest ?vs)"
      using None ne by (simp add: generateHLSManifest_def Let_def)
    have 2: "sorted_wrt (\<lambda>a b. bitrate b * 1000 \<le> bitrate a * 1000) ?vs"
      by (rule order[OF getVideoVariants_desc])
    have 3: "\<forall>x \<in> set ?vs. \<exists>r \<in> set (variants_of s videoId). rendition r = rendition x"
    proof
      fix x assume "x \<in> set ?vs"
      then have "x \<in> set (variants_of s videoId)" by (simp only: getVideoVariants_set)
      then show "\<exists>r \<in> set (variants_of s videoId). rendition r = rendition x"
        by (rule bexI[rotated]) simp
    qed
    have 4: "mset ?vs = mset (variants_of s videoId)" by (rule getVideoVariants_mset)
    have 5: "cache_hit (redis s (manifest_key videoId)) = None \<longrightarrow>
               ?vs = getVideoVariants s videoId \<and> mset ?vs = mset (variants_of s videoId)"
      using 4 by simp
    have "fst (generateHLSManifest videoId s) = Inr (master_manifest ?vs)
             \<and> ?vs \<noteq> []
             \<and> sorted_wrt (\<lambda>a b. bitrate b * 1000 \<le> bitrate a * 1000) ?vs
             \<and> (\<forall>x \<in> set ?vs. \<exists>r \<in> set (variants_of s videoId). rendition r = rendition x)
             \<and> (cache_hit (redis s (manifest_key videoId)) = None \<longrightarrow>
                  ?vs = getVideoVariants s videoId \<and> mset ?vs = mset (variants_of s videoId))"
      using 1 ne 2 3 5 by (intro conjI) assumption+
    then show ?thesis by (rule exI)
  next
    case (Some m)
    have 1: "fst (generateHLSManifest videoId s) = Inr m"
      using Some by (simp add: generateHLSManifest_def)
    have "lists_renditions s videoId m"
      using reachable_cache_inv[OF assms(1)] Some by (simp add: cache_inv_def manifest_cache_ok_def)
    then obtain vs where vs: "m = master_manifest vs" "vs \<noteq> []"
        "sorted_wrt (\<lambda>a b. bitrate b \<le> bitrate a) vs"
        "\<forall>x \<in> set vs. \<exists>r \<in> set (variants_of s videoId). rendition r = rendition x"
      unfolding lists_renditions_def by blast
    have 2: "fst (generateHLSManifest videoId s) = Inr (master_manifest vs)"
      using 1 vs(1) by simp
    have 3: "cache_hit (redis s (manifest_key videoId)) = None \<longrightarrow>
               vs = getVideoVariants s videoId \<and> mset vs = mset (variants_of s videoId)"
      using Some by simp
    have "fst (generateHLSManifest videoId s) = Inr (master_manifest vs)
             \<and> vs \<noteq> []
             \<and> sorted_wrt (\<lambda>a b. bitrate b * 1000 \<le> bitrate a * 1000) vs
             \<and> (\<forall>x \<in> set vs. \<exists>r \<in> set (variants_of s videoId). rendition r = rendition x)
             \<and> (cache_hit (redis s (manifest_key videoId)) = None \<longrightarrow>
                  vs = getVideoVariants s videoId \<and> mset vs = mset (variants_of s videoId))"
      using 2 vs(2) order[OF vs(3)] vs(4) 3 by (intro conjI) assumption+
    then show ?thesis by (rule exI)
  qed
  then show "\<exists>vs. fst (generateHLSManifest videoId s)
                 = Inr (''#EXTM3U'' @ [CHR 0x0A] @ ''#EXT-X-VERSION:3'' @ [CHR 0x0A, CHR 0x0A]
                        @ concat (map (\<lambda>v.
                            ''#EXT-X-STREAM-INF:BANDWIDTH='' @ string_of_int (bitrate v * 1000)
                              @ '',RESOLUTION='' @ string_of_int (resolution_width v)
                              @ ''x'' @ string_of_int (resolution_height v) @ [CHR 0x0A]
                            @ quality v @ ''/playlist.m3u8'' @ [CHR 0x0A, CHR 0x0A]) vs))
             \<and> vs \<noteq> []
             \<and> sorted_wrt (\<lambda>a b. bitrate b * 1000 \<le> bitrate a * 1000) vs
             \<and> (\<forall>x \<in> set vs. \<exists>r \<in> set (variants_of s videoId). rendition r = rendition x)
             \<and> (cache_hit (redis s (manifest_key videoId)) = None \<longrightarrow>
                  vs = getVideoVariants s videoId \<and> mset vs = mset (variants_of s videoId))"
    unfolding master_manifest_text .
next
  show "\<forall>s'. mset (video_variants s') = mset (video_variants s) \<longrightarrow>
             map bitrate (getVideoVariants s' videoId) = map bitrate (getVideoVariants s videoId)"
    using getVideoVariants_perm by blast
next
  show "\<forall>n. 0 \<le> n \<longrightarrow>
             set (string_of_int n) \<subseteq> set ''0123456789''
             \<and> foldl (\<lambda>a c. 10 * a + (of_char c - 48)) 0 (string_of_int n) = n"
    by (intro allI impI) (rule string_of_int_decimal)
qed

theorem master_manifest_in_descending_bandwidth_witness:
  "reachable local_config served_state
   \<and> variants_of served_state ''v1'' \<noteq> []
   \<and> cache_hit (redis served_state (manifest_key ''v1'')) \<noteq> None
   \<and> (\<exists>vs. fst (generateHLSManifest ''v1'' served_state) = Inr (master_manifest vs)
          \<and> vs \<noteq> []
          \<and> sorted_wrt (\<lambda>a b. bitrate b * 1000 \<le> bitrate a * 1000) vs)
   \<and> map quality (getVideoVariants served_state ''v1'') = [''1080p'', ''720p'', ''480p'', ''360p'', ''240p'']
   \<and> fst (generateHLSManifest ''v1'' served_state)
       = Inr (''#EXTM3U'' @ [CHR 0x0A] @ ''#EXT-X-VERSION:3'' @ [CHR 0x0A, CHR 0x0A]
            @ ''#EXT-X-STREAM-INF:BANDWIDTH=5000000,RESOLUTION=1920x1080'' @ [CHR 0x0A]
            @ ''1080p/playlist.m3u8'' @ [CHR 0x0A, CHR 0x0A]
            @ ''#EXT-X-STREAM-INF:BANDWIDTH=2500000,RESOLUTION=1280x720'' @ [CHR 0x0A]
            @ ''720p/playlist.m3u8'' @ [CHR 0x0A, CHR 0x0A]
            @ ''#EXT-X-STREAM-INF:BANDWIDTH=1200000,RESOLUTION=854x480'' @ [CHR 0x0A]
            @ ''480p/playlist.m3u8'' @ [CHR 0x0A, CHR 0x0A]
            @ ''#EXT-X-STREAM-INF:BANDWIDTH=800000,RESOLUTION=640x360'' @ [CHR 0x0A]
            @ ''360p/playlist.m3u8'' @ [CHR 0x0A, CHR 0x0A]
            @ ''#EXT-X-STREAM-INF:BANDWIDTH=400000,RESOLUTION=426x240'' @ [CHR 0x0A]
            @ ''240p/playlist.m3u8'' @ [CHR 0x0A, CHR 0x0A])
   \<and> cache_hit (redis processed_state (manifest_key ''v1'')) = None
   \<and> fst (generateHLSManifest ''v1'' processed_state)
       = Inr (''#EXTM3U'' @ [CHR 0x0A] @ ''#EXT-X-VERSION:3'' @ [CHR 0x0A, CHR 0x0A]
            @ ''#EXT-X-STREAM-INF:BANDWIDTH=5000000,RESOLUTION=1920x1080'' @ [CHR 0x0A]
            @ ''1080p/playlist.m3u8'' @ [CHR 0x0A, CHR 0x0A]
            @ ''#EXT-X-STREAM-INF:BANDWIDTH=2500000,RESOLUTION=1280x720'' @ [CHR 0x0A]
            @ ''720p/playlist.m3u8'' @ [CHR 0x0A, CHR 0x0A]
            @ ''#EXT-X-STREAM-INF:BANDWIDTH=1200000,RESOLUTION=854x480'' @ [CHR 0x0A]
            @ ''480p/playlist.m3u8'' @ [CHR 0x0A, CHR 0x0A]
            @ ''#EXT-X-STREAM-INF:BANDWIDTH=800000,RESOLUTION=640x360'' @ [CHR 0x0A]
            @ ''360p/playlist.m3u8'' @ [CHR 0x0A, CHR 0x0A]
            @ ''#EXT-X-STREAM-INF:BANDWIDTH=400000,RESOLUTION=426x240'' @ [CHR 0x0A]
            @ ''240p/playlist.m3u8'' @ [CHR 0x0A, CHR 0x0A])
   \<and> string_of_int 5000000 = ''5000000''
   \<and> foldl (\<lambda>a c. 10 * a + (of_char c - 48)) 0 (string_of_int 5000000) = (5000000::int)"
proof -
  have h: "variants_of served_state ''v1'' \<noteq> []" by code_simp
  have c: "cache_hit (redis served_state (manifest_key ''v1'')) \<noteq> None" by code_simp
  have q: "map quality (getVideoVariants served_state ''v1'')
             = [''1080p'', ''720p'', ''480p'', ''360p'', ''240p'']" by code_simp
  have hit: "fst (generateHLSManifest ''v1'' served_state)
       = Inr (''#EXTM3U'' @ [CHR 0x0A] @ ''#EXT-X-VERSION:3'' @ [CHR 0x0A, CHR 0x0A]
            @ ''#EXT-X-STREAM-INF:BANDWIDTH=5000000,RESOLUTION=1920x1080'' @ [CHR 0x0A]
            @ ''1080p/playlist.m3u8'' @ [CHR 0x0A, CHR 0x0A]
            @ ''#EXT-X-STREAM-INF:BANDWIDTH=2500000,RESOLUTION=1280x720'' @ [CHR 0x0A]
            @ ''720p/playlist.m3u8'' @ [CHR 0x0A, CHR 0x0A]
            @ ''#EXT-X-STREAM-INF:BANDWIDTH=1200000,RESOLUTION=854x480'' @ [CHR 0x0A]
            @ ''480p/playlist.m3u8'' @ [CHR 0x0A, CHR 0x0A]
            @ ''#EXT-X-STREAM-INF:BANDWIDTH=800000,RESOLUTION=640x360'' @ [CHR 0x0A]
            @ ''360p/playlist.m3u8'' @ [CHR 0x0A, CHR 0x0A]
            @ ''#EXT-X-STREAM-INF:BANDWIDTH=400000,RESOLUTION=426x240'' @ [CHR 0x0A]
            @ ''240p/playlist.m3u8'' @ [CHR 0x0A, CHR 0x0A])"
    by code_simp
  have c0: "cache_hit (redis processed_state (manifest_key ''v1'')) = None" by code_simp
  have miss: "fst (generateHLSManifest ''v1'' processed_state)
       = Inr (''#EXTM3U'' @ [CHR 0x0A] @ ''#EXT-X-VERSION:3'' @ [CHR 0x0A, CHR 0x0A]
            @ ''#EXT-X-STREAM-INF:BANDWIDTH=5000000,RESOLUTION=1920x1080'' @ [CHR 0x0A]
            @ ''1080p/playlist.m3u8'' @ [CHR 0x0A, CHR 0x0A]
            @ ''#EXT-X-STREAM-INF:BANDWIDTH=2500000,RESOLUTION=1280x720'' @ [CHR 0x0A]
            @ ''720p/playlist.m3u8'' @ [CHR 0x0A, CHR 0x0A]
            @ ''#EXT-X-STREAM-INF:BANDWIDTH=1200000,RESOLUTION=854x480'' @ [CHR 0x0A]
            @ ''480p/playlist.m3u8'' @ [CHR 0x0A, CHR 0x0A]
            @ ''#EXT-X-STREAM-INF:BANDWIDTH=800000,RESOLUTION=640x360'' @ [CHR 0x0A]
            @ ''360p/playlist.m3u8'' @ [CHR 0x0A, CHR 0x0A]
            @ ''#EXT-X-STREAM-INF:BANDWIDTH=400000,RESOLUTION=426x240'' @ [CHR 0x0A]
            @ ''240p/playlist.m3u8'' @ [CHR 0x0A, CHR 0x0A])"
    by code_simp
  have d: "string_of_int 5000000 = ''5000000''" by code_simp
  note main = master_manifest_in_descending_bandwidth[OF reachable_served_state h]
  from main
  have ex: "\<exists>vs. fst (generateHLSManifest ''v1'' served_state) = Inr (master_manifest vs)
          \<and> vs \<noteq> []
          \<and> sorted_wrt (\<lambda>a b. bitrate b * 1000 \<le> bitrate a * 1000) vs"
    unfolding master_manifest_text by blast
  from main
  have "\<forall>n. 0 \<le> n \<longrightarrow>
             set (string_of_int n) \<subseteq> set ''0123456789''
             \<and> foldl (\<lambda>a c. 10 * a + (of_char c - 48)) 0 (string_of_int n) = n"
    by (elim conjE)
  then have v: "foldl (\<lambda>a c. 10 * a + (of_char c - 48)) 0 (string_of_int 5000000) = (5000000::int)"
    by simp
  show ?thesis
    using reachable_served_state h c ex q hit c0 miss d v by (intro conjI) assumption+
qed

text \<open>
  C9. In every reachable state, for a video with no persisted rendition,
  \<open>generateHLSManifest\<close> raises \<open>No video variants found\<close> and changes nothing (no
  manifest can be cached for such a video, since rows are never deleted), the controller
  answers 404, and \<open>getOptimalQuality\<close> returns the default label \<open>360p\<close> for every
  bandwidth.
\<close>

theorem no_renditions_not_found_and_default_quality:
  assumes "reachable cfg s" and "variants_of s videoId = []"
  shows "generateHLSManifest videoId s = (Inl (Error ''No video variants found''), s)
       \<and> getHLSManifest videoId s = ((404, ''No video variants found''), s)
       \<and> getOptimalQuality videoId userBandwidth s = ''360p''"
proof -
  have e: "getVideoVariants s videoId = []"
    using assms(2) by (simp add: getVideoVariants_empty)
  have "cache_hit (redis s (manifest_key videoId)) = None"
  proof (cases "cache_hit (redis s (manifest_key videoId))")
    case None
    then show ?thesis .
  next
    case (Some m)
    then have "lists_renditions s videoId m"
      using reachable_cache_inv[OF assms(1)] by (simp add: cache_inv_def manifest_cache_ok_def)
    then obtain vs where "vs \<noteq> []"
        "\<forall>x \<in> set vs. \<exists>r \<in> set (variants_of s videoId). rendition r = rendition x"
      unfolding lists_renditions_def by blast
    then have False using assms(2) by (cases vs) auto
    then show ?thesis ..
  qed
  then have g: "generateHLSManifest videoId s = (Inl (Error ''No video variants found''), s)"
    using e by (simp add: generateHLSManifest_def)
  show ?thesis
    by (simp add: g getHLSManifest_def getOptimalQuality_def e)
qed

theorem no_renditions_not_found_and_default_quality_witness:
  "reachable local_config fresh_state
   \<and> variants_of fresh_state ''v1'' = []
   \<and> fst (getHLSManifest ''v1'' fresh_state) = (404, ''No video variants found'')
   \<and> getOptimalQuality ''v1'' 1300 fresh_state = ''360p''"
proof -
  have h: "variants_of fresh_state ''v1'' = []" by code_simp
  from no_renditions_not_found_and_default_quality[OF reachable_fresh_state h, of 1300]
  show ?thesis using reachable_fresh_state h by simp
qed

text \<open>
  C10. In every reachable state of a configuration whose rung names contain no colon,
  for a video and a quality label with a rendition row, \<open>generateQualityPlaylist\<close>
  returns the fixed text with the two 10-second segments \<open><quality>_000.ts\<close> and
  \<open><quality>_001.ts\<close> and the end-list marker, from the cache or built anew. The text
  is a function of the label alone: nothing of the row enters it.
\<close>

theorem quality_playlist_is_constant:
  assumes "reachable cfg s"
      and "\<forall>rung \<in> set (video_qualities cfg). CHR '':'' \<notin> set (name rung)"
      and "\<exists>r \<in> set (variants_of s videoId). quality r = q"
  shows "fst (generateQualityPlaylist videoId q s) =
           Inr (''#EXTM3U'' @ [CHR 0x0A] @ ''#EXT-X-VERSION:3'' @ [CHR 0x0A]
                @ ''#EXT-X-TARGETDURATION:10'' @ [CHR 0x0A] @ ''#EXT-X-MEDIA-SEQUENCE:0'' @ [CHR 0x0A]
                @ ''#EXTINF:10.0,'' @ [CHR 0x0A] @ q @ ''_000.ts'' @ [CHR 0x0A]
                @ ''#EXTINF:10.0,'' @ [CHR 0x0A] @ q @ ''_001.ts'' @ [CHR 0x0A]
                @ ''#EXT-X-ENDLIST'')"
proof -
  note inv = reachable_cache_inv[OF assms(1)]
  from assms(3) obtain r where r: "r \<in> set (video_variants s)" "video_id r = videoId \<and> quality r = q"
    by (auto simp: variants_of_def)
  then have "find (\<lambda>r. video_id r = videoId \<and> quality r = q) (video_variants s) \<noteq> None"
    by (auto simp: find_None_iff)
  then obtain x where f: "find (\<lambda>r. video_id r = videoId \<and> quality r = q) (video_variants s) = Some x"
    by auto
  have "fst (generateQualityPlaylist videoId q s) = Inr (quality_playlist q)"
  proof (cases "cache_hit (redis s (playlist_key videoId q))")
    case None
    then show ?thesis using f by (simp add: generateQualityPlaylist_def Let_def)
  next
    case (Some m)
    then obtain v' q' where k: "playlist_key videoId q = playlist_key v' q'"
        "q' \<in> name ` set (video_qualities cfg)" "m = quality_playlist q'"
      using inv unfolding cache_inv_def playlist_cache_ok_def by (metis take_playlist_key)
    have "q \<in> name ` set (video_qualities cfg)"
      using inv r by (auto simp: cache_inv_def rows_named_def)
    then have "CHR '':'' \<notin> set q" "CHR '':'' \<notin> set q'"
      using assms(2) k(2) by auto
    moreover have "videoId @ '':'' @ q = v' @ '':'' @ q'"
      using k(1) by (simp add: playlist_key_def)
    ultimately have "q = q'" using colon_free_suffix by blast
    with Some k(3) show ?thesis by (simp add: generateQualityPlaylist_def)
  qed
  then show ?thesis by (simp add: quality_playlist_def)
qed

theorem quality_playlist_is_constant_witness:
  "reachable local_config served_state
   \<and> (\<exists>r \<in> set (variants_of served_state ''v1''). quality r = ''240p'')
   \<and> cache_hit (redis served_state (playlist_key ''v1'' ''240p'')) \<noteq> None
   \<and> fst (generateQualityPlaylist ''v1'' ''240p'' served_state) = Inr (quality_playlist ''240p'')"
proof -
  have h1: "\<forall>rung \<in> set (video_qualities local_config). CHR '':'' \<notin> set (name rung)" by code_simp
  have h2: "\<exists>r \<in> set (variants_of served_state ''v1''). quality r = ''240p''" by code_simp
  have c: "cache_hit (redis served_state (playlist_key ''v1'' ''240p'')) \<noteq> None" by code_simp
  from quality_playlist_is_constant[OF reachable_served_state h1 h2]
  show ?thesis using reachable_served_state h2 c by (simp add: quality_playlist_def)
qed

subsection \<open>The local strategy\<close>

text \<open>
  C8. Under the local strategy, for a video without renditions and a rung table with
  distinct names, when the steps around the rungs succeed (probe, output directory,
  thumbnail, master playlist and, with S3 storage, publishing) and at least one rung's
  encode succeeds, \<open>processVideo\<close> returns normally, the persisted status is Ready, and
  the renditions of the video are those of the successful rungs, one row each in the
  order of the table and none for a failed rung: a failed rung does not keep a later
  one from being encoded and stored.
\<close>

theorem local_pipeline_ready_with_one_row_per_successful_rung:
  assumes local: "\<not> cloud_configured cfg"
      and video: "videos s videoId = Some video"
      and fresh: "variants_of s videoId = []"
      and names: "distinct (map name (video_qualities cfg))"
      and probe: "ffprobe e inputPath = Inr d"
      and dir: "mkdir e (processed_dir cfg videoId) = None"
      and thumb: "screenshots e inputPath (processed_dir cfg videoId) = None"
      and master: "\<forall>text. fs_writeFile e (path_join (processed_dir cfg videoId) ''master.m3u8'') text = None"
      and publish: "storage_type cfg = S3Storage \<longrightarrow>
                    uploadDirectoryToS3 e (''videos/'' @ videoId) (processed_dir cfg videoId) = None"
      and some_ok: "\<exists>q \<in> set (video_qualities cfg).
                      encode_succeeds e inputPath (processed_dir cfg videoId) q"
  shows "fst (processVideo cfg e videoId inputPath s) = Inr ()
       \<and> status_of (snd (processVideo cfg e videoId inputPath s)) videoId = Some Ready
       \<and> map rendition (variants_of (snd (processVideo cfg e videoId inputPath s)) videoId)
           = map rung (filter (encode_succeeds e inputPath (processed_dir cfg videoId))
                         (video_qualities cfg))
       \<and> variants_of (snd (processVideo cfg e videoId inputPath s)) videoId \<noteq> []"
proof -
  let ?od = "processed_dir cfg videoId"
  let ?ok = "filter (encode_succeeds e inputPath ?od) (video_qualities cfg)"
  let ?rows = "map (encoded_row e ?od videoId) ?ok"
  let ?s3 = "updateVideoMetadata videoId d (cacheProcessingStatus e videoId
                 [(''status'', JStr ''processing''), (''progress'', JNum 10)]
                 (updateVideoStatus videoId Processing s))"
  let ?t1 = "set_thumbnail_url videoId ?s3"
  let ?t2 = "?t1\<lparr>video_variants := video_variants ?t1 @ ?rows\<rparr>"
  let ?t3 = "if storage_type cfg = S3Storage then publish_variant_urls cfg videoId ?rows ?t2 else ?t2"
  have ne: "?ok \<noteq> []" using some_ok by (auto simp: filter_empty_conv)
  have f1: "variants_of ?t1 videoId = []" using fresh by simp
  then have "\<forall>r \<in> set (video_variants ?t1). video_id r = videoId \<longrightarrow>
                 quality r \<notin> name ` set (video_qualities cfg)"
    by (auto simp: variants_of_def filter_empty_conv)
  from transcode_loop_rows[OF names this, of e inputPath ?od "[]"]
  have loop: "transcodeToMultipleQualities cfg e inputPath ?od videoId ?t1 = (?rows, ?t2)"
    by (simp add: transcodeToMultipleQualities_def)
  have ff: "processWithFFmpeg cfg e videoId inputPath ?s3 = (Inr (), ?t3)"
    by (rule processWithFFmpeg_ok[OF dir thumb master publish loop])
  have r2: "map rendition (variants_of ?t2 videoId) = map rung ?ok"
    by (simp only: variants_of_app f1) (simp add: comp_def)
  then have r3: "map rendition (variants_of ?t3 videoId) = map rung ?ok"
    by simp
  have "status_of ?t2 videoId = Some Processing"
    using video by (simp add: status_of_def)
  then have s3: "status_of ?t3 videoId = Some Processing" by simp
  have "map rendition (variants_of ?t3 videoId) \<noteq> []" using r3 ne by simp
  then have n3: "variants_of ?t3 videoId \<noteq> []" by auto
  show ?thesis
    using r3 s3 n3 by (simp add: processVideo_local_ok[OF local probe ff])
qed

theorem local_pipeline_ready_with_one_row_per_successful_rung_witness:
  "\<not> cloud_configured local_config
   \<and> (\<exists>q \<in> set (video_qualities local_config).
         encode_succeeds only_480p_fails_env ''in.mp4'' (processed_dir local_config ''v1'') q)
   \<and> status_of (snd (processVideo local_config only_480p_fails_env ''v1'' ''in.mp4'' fresh_state)) ''v1''
       = Some Ready
   \<and> map rendition
        (variants_of (snd (processVideo local_config only_480p_fails_env ''v1'' ''in.mp4'' fresh_state)) ''v1'')
       = [(''240p'', 400, 426, 240), (''360p'', 800, 640, 360),
          (''720p'', 2500, 1280, 720), (''1080p'', 5000, 1920, 1080)]"
proof -
  have local: "\<not> cloud_configured local_config" by code_simp
  have video: "videos fresh_state ''v1'' = Some uploaded_video" by (simp add: fresh_state_def)
  have fresh: "variants_of fresh_state ''v1'' = []" by code_simp
  have names: "distinct (map name (video_qualities local_config))" by code_simp
  have probe: "ffprobe only_480p_fails_env ''in.mp4'' = Inr 60"
    by (simp add: only_480p_fails_env_def ok_env_def)
  have dir: "mkdir only_480p_fails_env (processed_dir local_config ''v1'') = None"
    by (simp add: only_480p_fails_env_def ok_env_def)
  have thumb: "screenshots only_480p_fails_env ''in.mp4'' (processed_dir local_config ''v1'') = None"
    by (simp add: only_480p_fails_env_def ok_env_def)
  have master: "\<forall>text. fs_writeFile only_480p_fails_env
                   (path_join (processed_dir local_config ''v1'') ''master.m3u8'') text = None"
    by (simp add: only_480p_fails_env_def ok_env_def)
  have publish: "storage_type local_config = S3Storage \<longrightarrow>
                 uploadDirectoryToS3 only_480p_fails_env (''videos/'' @ ''v1'')
                   (processed_dir local_config ''v1'') = None"
    by (simp add: local_config_def)
  have some_ok: "\<exists>q \<in> set (video_qualities local_config).
                   encode_succeeds only_480p_fails_env ''in.mp4'' (processed_dir local_config ''v1'') q"
    by code_simp
  have rungs: "map rung (filter (encode_succeeds only_480p_fails_env ''in.mp4''
                  (processed_dir local_config ''v1'')) (video_qualities local_config))
        = [(''240p'', 400, 426, 240), (''360p'', 800, 640, 360),
           (''720p'', 2500, 1280, 720), (''1080p'', 5000, 1920, 1080)]"
    by code_simp
  from local_pipeline_ready_with_one_row_per_successful_rung
         [OF local video fresh names probe dir thumb master publish some_ok]
  show ?thesis using local some_ok by (simp only: rungs) simp
qed

text \<open>
  C2. Claimed: when every rung's encode fails, \<open>processVideo\<close> under the local strategy
  ends with status Failed and no rendition row. The code has no test on the number of
  stored renditions: the loop swallows each failure and \<open>processVideo\<close> goes on to set
  Ready. With the default table and an encoder that fails every run the status ends
  Ready, not Failed.
\<close>

theorem all_rungs_fail_status_not_failed:
  "filter (encode_succeeds failing_encoder_env ''in.mp4'' (processed_dir local_config ''v1''))
     (video_qualities local_config) = []
   \<and> \<not> cloud_configured local_config
   \<and> status_of (snd (processVideo local_config failing_encoder_env ''v1'' ''in.mp4'' fresh_state)) ''v1''
       \<noteq> Some Failed
   \<and> video_variants (snd (processVideo local_config failing_encoder_env ''v1'' ''in.mp4'' fresh_state)) = []"
  by code_simp

text \<open>
  C2 as amended: under the local strategy, when the steps around the rungs succeed and
  every rung's encode fails, \<open>processVideo\<close> returns normally with persisted status
  Ready, and the run persists no rendition row.
\<close>

theorem local_pipeline_all_rungs_fail_ready_without_rows:
  assumes local: "\<not> cloud_configured cfg"
      and video: "videos s videoId = Some video"
      and probe: "ffprobe e inputPath = Inr d"
      and dir: "mkdir e (processed_dir cfg videoId) = None"
      and thumb: "screenshots e inputPath (processed_dir cfg videoId) = None"
      and master: "\<forall>text. fs_writeFile e (path_join (processed_dir cfg videoId) ''master.m3u8'') text = None"
      and publish: "storage_type cfg = S3Storage \<longrightarrow>
                    uploadDirectoryToS3 e (''videos/'' @ videoId) (processed_dir cfg videoId) = None"
      and all_fail: "\<forall>q \<in> set (video_qualities cfg).
                      \<not> encode_succeeds e inputPath (processed_dir cfg videoId) q"
  shows "fst (processVideo cfg e videoId inputPath s) = Inr ()
       \<and> status_of (snd (processVideo cfg e videoId inputPath s)) videoId = Some Ready
       \<and> video_variants (snd (processVideo cfg e videoId inputPath s)) = video_variants s"
proof -
  let ?od = "processed_dir cfg videoId"
  let ?s3 = "updateVideoMetadata videoId d (cacheProcessingStatus e videoId
                 [(''status'', JStr ''processing''), (''progress'', JNum 10)]
                 (updateVideoStatus videoId Processing s))"
  have loop: "transcodeToMultipleQualities cfg e inputPath ?od videoId (set_thumbnail_url videoId ?s3)
                = ([], set_thumbnail_url videoId ?s3)"
    using all_fail by (simp add: transcodeToMultipleQualities_def transcode_loop_all_fail)
  have ff: "processWithFFmpeg cfg e videoId inputPath ?s3 = (Inr (), set_thumbnail_url videoId ?s3)"
    using processWithFFmpeg_ok[OF dir thumb master publish loop]
    by (simp add: publish_variant_urls_def)
  have st: "status_of s videoId = Some (status video)" using video by (simp add: status_of_def)
  show ?thesis
    by (simp add: processVideo_local_ok[OF local probe ff] st)
qed

theorem local_pipeline_all_rungs_fail_ready_without_rows_witness:
  "\<not> cloud_configured local_config
   \<and> filter (encode_succeeds failing_encoder_env ''in.mp4'' (processed_dir local_config ''v1''))
        (video_qualities local_config) = []
   \<and> fst (processVideo local_config failing_encoder_env ''v1'' ''in.mp4'' fresh_state) = Inr ()
   \<and> status_of (snd (processVideo local_config failing_encoder_env ''v1'' ''in.mp4'' fresh_state)) ''v1''
       = Some Ready
   \<and> video_variants (snd (processVideo local_config failing_encoder_env ''v1'' ''in.mp4'' fresh_state))
       = video_variants fresh_state"
proof -
  have local: "\<not> cloud_configured local_config" by code_simp
  have video: "videos fresh_state ''v1'' = Some uploaded_video" by (simp add: fresh_state_def)
  have probe: "ffprobe failing_encoder_env ''in.mp4'' = Inr 60"
    by (simp add: failing_encoder_env_def ok_env_def)
  have dir: "mkdir failing_encoder_env (processed_dir local_config ''v1'') = None"
    by (simp add: failing_encoder_env_def ok_env_def)
  have thumb: "screenshots failing_encoder_env ''in.mp4'' (processed_dir local_config ''v1'') = None"
    by (simp add: failing_encoder_env_def ok_env_def)
  have master: "\<forall>text. fs_writeFile failing_encoder_env
                   (path_join (processed_dir local_config ''v1'') ''master.m3u8'') text = None"
    by (simp add: failing_encoder_env_def ok_env_def)
  have publish: "storage_type local_config = S3Storage \<longrightarrow>
                 uploadDirectoryToS3 failing_encoder_env (''videos/'' @ ''v1'')
                   (processed_dir local_config ''v1'') = None"
    by (simp add: local_config_def)
  have all_fail: "\<forall>q \<in> set (video_qualities local_config).
                   \<not> encode_succeeds failing_encoder_env ''in.mp4'' (processed_dir local_config ''v1'') q"
    by (simp add: encode_succeeds_def failing_encoder_env_def)
  from local_pipeline_all_rungs_fail_ready_without_rows
         [OF local video probe dir thumb master publish all_fail]
  show ?thesis using local all_fail by (simp add: filter_empty_conv)
qed

subsection \<open>The cloud strategy\<close>

text \<open>
  C4. Claimed: with cloud credentials configured, \<open>processVideo\<close> stores the job id and
  returns with the status still Processing; Ready is set only when \<open>checkAWSJobStatus\<close>
  sees the job complete, so Ready implies a rendition row. In the code the statements
  after the strategy branch are shared by both strategies: after the job is submitted the
  status is set to Ready at once. With credentials and every collaborator succeeding the
  video ends Ready with its job id stored and no rendition row.
\<close>

theorem cloud_submit_sets_ready_without_renditions:
  "cloud_configured cloud_config
   \<and> fst (processVideo cloud_config ok_env ''v1'' ''in.mp4'' fresh_state) = Inr ()
   \<and> map_option processing_job_id
        (videos (snd (processVideo cloud_config ok_env ''v1'' ''in.mp4'' fresh_state)) ''v1'')
       = Some (Some ''job-1'')
   \<and> status_of (snd (processVideo cloud_config ok_env ''v1'' ''in.mp4'' fresh_state)) ''v1'' = Some Ready
   \<and> video_variants (snd (processVideo cloud_config ok_env ''v1'' ''in.mp4'' fresh_state)) = []"
  by code_simp

text \<open>
  C3. Once one call of \<open>checkAWSJobStatus\<close> has returned the job as COMPLETE, leaving
  the store \<open>s1\<close>, the status of the video is Ready, and a call for the same video from
  any store that agrees with \<open>s1\<close> on the two tables (whatever the cache holds) ends
  with both tables as they are in \<open>s1\<close>: either no output names a rung and nothing is
  inserted, or the first insert meets \<open>unique(video_id, quality)\<close> and the call raises
  before anything is written. The result again agrees with \<open>s1\<close>, so this holds for every
  later call.
\<close>

theorem pollJob_after_complete_keeps_persisted_state:
  assumes first: "checkAWSJobStatus cfg e videoId s = (Inr job, s1)"
      and complete: "job_status job = COMPLETE"
      and same_videos: "videos t = videos s1"
      and same_rows: "video_variants t = video_variants s1"
  shows "status_of s1 videoId = Some Ready
       \<and> videos (snd (checkAWSJobStatus cfg e videoId t)) = videos s1
       \<and> video_variants (snd (checkAWSJobStatus cfg e videoId t)) = video_variants s1"
proof -
  from first obtain video where video: "videos s videoId = Some video"
    by (auto simp: checkAWSJobStatus_def split: option.splits)
  from first video have tr: "truthy (processing_job_id video)"
    by (auto simp: checkAWSJobStatus_def split: if_splits)
  let ?jid = "str_opt (processing_job_id video)"
  from first video tr have gj: "getJobStatus e ?jid = Inr job"
    by (auto simp: checkAWSJobStatus_def Let_def split: sum.splits if_splits prod.splits)
  let ?st = "\<lambda>v'. [(''status'', JStr (JobStatus_string (job_status job))),
                  (''progress'', JNum (progress job)),
                  (''jobId'', JStr (str_opt (processing_job_id v')))]
                 @ opt_field ''error'' (errorMessage job)"
  let ?s0 = "cacheProcessingStatus e videoId (?st video) s"
  obtain r s2 where up: "updateVideoVariantsFromAWS cfg videoId job ?s0 = (r, s2)" by fastforce
  from first video tr gj complete up obtain u where r: "r = Inr u"
    by (cases r) (simp_all add: checkAWSJobStatus_def Let_def)
  from first video tr gj complete up r
  have s1: "s1 = invalidateVideoCache videoId (updateVideoStatus videoId Ready s2)"
    by (simp add: checkAWSJobStatus_def Let_def)
  from updateVideoVariantsFromAWS_grows[OF up[unfolded r]]
  have v2: "videos s2 = videos s" by simp
  have ready: "status_of s1 videoId = Some Ready"
    using video v2 by (simp add: s1 status_of_def)
  have job1: "map_option processing_job_id (videos s1 videoId) = Some (processing_job_id video)"
    using video v2 by (simp add: s1)
  then obtain video' where video': "videos t videoId = Some video'"
     and pj: "processing_job_id video' = processing_job_id video"
    using same_videos by auto
  let ?t0 = "cacheProcessingStatus e videoId (?st video') t"
  have "set (video_variants s2) \<subseteq> set (video_variants ?t0)"
    using same_rows by (simp add: s1)
  from updateVideoVariantsFromAWS_again[OF up[unfolded r] this]
  obtain r' where up': "updateVideoVariantsFromAWS cfg videoId job ?t0 = (r', ?t0)" ..
  have rt: "status_of ?t0 videoId = Some Ready"
    using ready same_videos by (simp add: status_of_def)
  have "videos (snd (checkAWSJobStatus cfg e videoId t)) = videos t
      \<and> video_variants (snd (checkAWSJobStatus cfg e videoId t)) = video_variants t"
  proof (cases r')
    case (Inl err)
    with video' pj tr gj complete up' show ?thesis
      by (simp add: checkAWSJobStatus_def Let_def)
  next
    case (Inr y)
    with video' pj tr gj complete up' updateVideoStatus_same[OF rt] show ?thesis
      by (simp add: checkAWSJobStatus_def Let_def)
  qed
  with ready same_videos same_rows show ?thesis by simp
qed

theorem pollJob_after_complete_keeps_persisted_state_witness:
  "fst (checkAWSJobStatus cloud_config ok_env ''v1'' submitted_state)
     = Inr \<lparr>jobId = ''job-1'', job_status = COMPLETE, progress = 100, errorMessage = None,
            outputGroupDetails = OutputGroupDetails complete_job\<rparr>
   \<and> map quality (video_variants (snd (checkAWSJobStatus cloud_config ok_env ''v1'' submitted_state)))
       = [''240p'', ''1080p'']
   \<and> status_of (snd (checkAWSJobStatus cloud_config ok_env ''v1'' submitted_state)) ''v1'' = Some Ready
   \<and> videos (snd (checkAWSJobStatus cloud_config ok_env ''v1''
                 (snd (checkAWSJobStatus cloud_config ok_env ''v1'' submitted_state))))
       = videos (snd (checkAWSJobStatus cloud_config ok_env ''v1'' submitted_state))
   \<and> video_variants (snd (checkAWSJobStatus cloud_config ok_env ''v1''
                 (snd (checkAWSJobStatus cloud_config ok_env ''v1'' submitted_state))))
       = video_variants (snd (checkAWSJobStatus cloud_config ok_env ''v1'' submitted_state))"
proof -
  let ?job = "\<lparr>jobId = ''job-1'', job_status = COMPLETE, progress = 100, errorMessage = None,
            outputGroupDetails = OutputGroupDetails complete_job\<rparr>"
  let ?s1 = "snd (checkAWSJobStatus cloud_config ok_env ''v1'' submitted_state)"
  have f: "fst (checkAWSJobStatus cloud_config ok_env ''v1'' submitted_state) = Inr ?job"
    by code_simp
  then have first: "checkAWSJobStatus cloud_config ok_env ''v1'' submitted_state = (Inr ?job, ?s1)"
    by (metis prod.collapse)
  have complete: "job_status ?job = COMPLETE" by simp
  have rows: "map quality (video_variants ?s1) = [''240p'', ''1080p'']" by code_simp
  from pollJob_after_complete_keeps_persisted_state[OF first complete refl refl] f rows
  show ?thesis by simp
qed

subsection \<open>Cache coherence\<close>

text \<open>
  C7. Claimed: after \<open>processVideo\<close> completes, every cache entry of the video that was
  there before is absent or equal to the value computed afresh from the persisted rows.
  \<open>invalidateVideoCache\<close> deletes the keys \<open>video:metadata:\<close>, \<open>video:variants:\<close>,
  \<open>video:hls:\<close>, \<open>video:processing:\<close>, \<open>video:analytics:\<close> and \<open>video:views:\<close>, but
  \<open>generateHLSManifest\<close> keeps the manifest under \<open>manifest:\<close>, a key that is never
  deleted. Start from a video with the 240p rendition and its manifest cached; a second
  run stores the four other rungs and ends Ready, and the cached manifest is still the
  one that lists 240p only.
\<close>

theorem processVideo_leaves_stale_manifest_cached:
  "redis one_rendition_cached_state (manifest_key ''v1'')
     = Some (master_manifest (getVideoVariants one_rendition_cached_state ''v1''))
   \<and> status_of (snd (processVideo local_config ok_env ''v1'' ''in.mp4'' one_rendition_cached_state)) ''v1''
       = Some Ready
   \<and> map quality (getVideoVariants
        (snd (processVideo local_config ok_env ''v1'' ''in.mp4'' one_rendition_cached_state)) ''v1'')
       = [''1080p'', ''720p'', ''480p'', ''360p'', ''240p'']
   \<and> redis (snd (processVideo local_config ok_env ''v1'' ''in.mp4'' one_rendition_cached_state))
        (manifest_key ''v1'')
       = Some (master_manifest [row_240p])
   \<and> master_manifest [row_240p]
       \<noteq> master_manifest (getVideoVariants
            (snd (processVideo local_config ok_env ''v1'' ''in.mp4'' one_rendition_cached_state)) ''v1'')
   \<and> fst (generateHLSManifest ''v1''
            (snd (processVideo local_config ok_env ''v1'' ''in.mp4'' one_rendition_cached_state)))
       = Inr (master_manifest [row_240p])"
  by code_simp

end
